theory Spec2Isabelle
  imports Main "HOL-Library.AList"
begin

section \<open>The filesystem seen by both programs\<close>

text \<open>
  Both \<^verbatim>\<open>m365-cli.js\<close> and the device-code script touch the disk only through
  \<^verbatim>\<open>fs.existsSync\<close>, \<^verbatim>\<open>fs.readFileSync\<close> and \<^verbatim>\<open>fs.writeFileSync\<close>.
  A filesystem is a partial map from paths to nodes. A node is a regular file with its
  content, or a node that exists but cannot be opened (\<open>Blocked\<close>: a directory, which
  fails with \<^verbatim>\<open>EISDIR\<close>, or a file the process has no permission on, which fails
  with \<^verbatim>\<open>EACCES\<close>). \<^verbatim>\<open>existsSync\<close> is true for both kinds of node. The content
  type is a parameter: raw text for the CLI, a JSON value for the device-code script
  (which only writes \<^verbatim>\<open>JSON.stringify\<close> output and reads it back with
  \<^verbatim>\<open>JSON.parse\<close>).
\<close>

type_synonym path = string

datatype fs_error = ENOENT | EISDIR | EACCES

datatype 'c node = File 'c | Blocked fs_error

type_synonym 'c filesystem = "path \<Rightarrow> 'c node option"

definition existsSync :: "'c filesystem \<Rightarrow> path \<Rightarrow> bool" where
  "existsSync fs p = (fs p \<noteq> None)"

definition readFileSync :: "'c filesystem \<Rightarrow> path \<Rightarrow> fs_error + 'c" where
  "readFileSync fs p =
     (case fs p of
        None \<Rightarrow> Inl ENOENT
      | Some (Blocked e) \<Rightarrow> Inl e
      | Some (File c) \<Rightarrow> Inr c)"

definition writeFileSync :: "'c filesystem \<Rightarrow> path \<Rightarrow> 'c \<Rightarrow> fs_error + 'c filesystem" where
  "writeFileSync fs p c =
     (case fs p of
        Some (Blocked e) \<Rightarrow> Inl e
      | _ \<Rightarrow> Inr (fs(p \<mapsto> File c)))"

section \<open>Credential store resolution (\<^verbatim>\<open>m365-cli.js\<close>)\<close>

text \<open>
  \<^verbatim>\<open>TOKEN_CACHE_PATHS\<close>: the local cache file (\<^verbatim>\<open>path.join(__dirname, ...)\<close>, taken
  as the parameter \<open>local\<close>) followed by the two fixed fallback locations.
\<close>

definition TOKEN_CACHE_PATHS :: "path \<Rightarrow> path list" where
  "TOKEN_CACHE_PATHS local =
     [local,
      ''/data/.npm/_npx/813b81b976932cb5/node_modules/@softeria/ms-365-mcp-server/.token-cache.json'',
      ''/data/.openclaw/tools/m365/.token-cache.json'']"

text \<open>The \<^verbatim>\<open>for (const p of TOKEN_CACHE_PATHS)\<close> loop with its early return.\<close>

fun first_existing :: "'c filesystem \<Rightarrow> path list \<Rightarrow> path option" where
  "first_existing fs [] = None"
| "first_existing fs (p # ps) = (if existsSync fs p then Some p else first_existing fs ps)"

text \<open>
  \<^verbatim>\<open>findTokenCache\<close>: the loop, then \<^verbatim>\<open>TOKEN_CACHE_PATHS[0]\<close>. Indexing an empty
  array gives \<^verbatim>\<open>undefined\<close> in JavaScript, which is the result \<open>None\<close> here.
\<close>

definition findTokenCache :: "path list \<Rightarrow> 'c filesystem \<Rightarrow> path option" where
  "findTokenCache paths fs =
     (case first_existing fs paths of
        Some p \<Rightarrow> Some p
      | None \<Rightarrow> (case paths of [] \<Rightarrow> None | p0 # _ \<Rightarrow> Some p0))"

section \<open>Loading, saving and token acquisition (\<^verbatim>\<open>m365-cli.js\<close>)\<close>

text \<open>
  JavaScript exceptions as values. \<open>Error msg\<close> is \<^verbatim>\<open>new Error(msg)\<close> thrown by the
  program itself; \<open>LibraryError msg\<close> is an error thrown by the MSAL library.
\<close>

datatype js_error =
    FsError fs_error
  | SyntaxError
  | TypeError
  | NetworkError
  | Error string
  | LibraryError string

fun message :: "js_error \<Rightarrow> string" where
  "message (FsError ENOENT) = ''ENOENT: no such file or directory''"
| "message (FsError EISDIR) = ''EISDIR: illegal operation on a directory''"
| "message (FsError EACCES) = ''EACCES: permission denied''"
| "message SyntaxError = ''Unexpected token in JSON''"
| "message TypeError = ''Cannot read properties of undefined''"
| "message NetworkError = ''fetch failed''"
| "message (Error m) = m"
| "message (LibraryError m) = m"

text \<open>
  \<^verbatim>\<open>loadCache\<close>. \<^verbatim>\<open>JSON.parse\<close> is the parameter \<open>parse\<close> (\<open>None\<close> when it throws
  \<^verbatim>\<open>SyntaxError\<close>). The body of the \<^verbatim>\<open>try\<close> block is \<open>loadCache_try\<close>; the
  \<^verbatim>\<open>catch\<close> turns every exception into \<^verbatim>\<open>null\<close>, the result \<open>Inr None\<close>.
  \<^verbatim>\<open>fs.existsSync(undefined)\<close> is false.
\<close>

definition loadCache_try :: "(string \<Rightarrow> 'j option) \<Rightarrow> string filesystem \<Rightarrow> path \<Rightarrow> js_error + 'j" where
  "loadCache_try parse fs cachePath =
     (case readFileSync fs cachePath of
        Inl e \<Rightarrow> Inl (FsError e)
      | Inr text \<Rightarrow> (case parse text of None \<Rightarrow> Inl SyntaxError | Some j \<Rightarrow> Inr j))"

definition loadCache ::
  "(string \<Rightarrow> 'j option) \<Rightarrow> path list \<Rightarrow> string filesystem \<Rightarrow> js_error + 'j option" where
  "loadCache parse paths fs =
     (case findTokenCache paths fs of
        None \<Rightarrow> Inr None
      | Some cachePath \<Rightarrow>
          if \<not> existsSync fs cachePath then Inr None
          else (case loadCache_try parse fs cachePath of
                  Inl e \<Rightarrow> Inr None
                | Inr j \<Rightarrow> Inr (Some j)))"

text \<open>
  \<^verbatim>\<open>saveCache\<close>: \<^verbatim>\<open>JSON.stringify(cache, null, 2)\<close> is the parameter \<open>stringify\<close>.
  With an empty path list \<^verbatim>\<open>writeFileSync(undefined, ...)\<close> throws \<^verbatim>\<open>TypeError\<close>.
\<close>

definition saveCache ::
  "('j \<Rightarrow> string) \<Rightarrow> path list \<Rightarrow> 'j \<Rightarrow> string filesystem \<Rightarrow> js_error + string filesystem" where
  "saveCache stringify paths cache fs =
     (case paths of
        [] \<Rightarrow> Inl TypeError
      | cachePath # _ \<Rightarrow>
          (case writeFileSync fs cachePath (stringify cache) of
             Inl e \<Rightarrow> Inl (FsError e)
           | Inr fs' \<Rightarrow> Inr fs'))"

text \<open>
  The MSAL library (\<^verbatim>\<open>@azure/msal-node\<close>) is an external dependency and a parameter
  of the model. A call into it is given the text that \<^verbatim>\<open>beforeCacheAccess\<close>
  deserialises and a network state of some type \<open>'n\<close>; it returns its result (or the
  error it throws), the contexts it passes to \<^verbatim>\<open>afterCacheAccess\<close> in order, and the
  new network state. A context carries \<^verbatim>\<open>context.cacheHasChanged\<close> and the text that
  \<^verbatim>\<open>context.tokenCache.serialize()\<close> returns.
\<close>

record cache_context =
  cacheHasChanged :: bool
  serialize :: string

record ('a, 'n) msal =
  getAllAccounts :: "string \<Rightarrow> 'n \<Rightarrow> (js_error + 'a list) \<times> cache_context list \<times> 'n"
  acquireTokenSilent ::
    "string \<Rightarrow> 'a \<Rightarrow> string list \<Rightarrow> 'n \<Rightarrow> (js_error + string) \<times> cache_context list \<times> 'n"

text \<open>The \<^verbatim>\<open>afterCacheAccess\<close> callback of the cache plugin, closed over \<open>cachePath\<close>.\<close>

definition afterCacheAccess ::
  "path \<Rightarrow> cache_context \<Rightarrow> string filesystem \<Rightarrow> fs_error + string filesystem" where
  "afterCacheAccess cachePath context fs =
     (if cacheHasChanged context then writeFileSync fs cachePath (serialize context)
      else Inr fs)"

text \<open>
  The callbacks of one library call, in order; an exception thrown by a callback ends
  the call with that exception, keeping the writes made before it.
\<close>

fun afterCacheAccesses ::
  "path \<Rightarrow> cache_context list \<Rightarrow> string filesystem \<Rightarrow> fs_error option \<times> string filesystem" where
  "afterCacheAccesses cachePath [] fs = (None, fs)"
| "afterCacheAccesses cachePath (context # contexts) fs =
     (case afterCacheAccess cachePath context fs of
        Inl e \<Rightarrow> (Some e, fs)
      | Inr fs' \<Rightarrow> afterCacheAccesses cachePath contexts fs')"

definition silent_scopes :: "string list" where
  "silent_scopes = [''Calendars.Read'', ''Mail.Read'', ''Mail.ReadWrite'']"

definition acquisition_failed :: "js_error \<Rightarrow> js_error" where
  "acquisition_failed error =
     Error (''Token acquisition failed: '' @ message error @ ''. Run: node msal-auth.mjs'')"

text \<open>
  The \<^verbatim>\<open>try\<close> block of \<^verbatim>\<open>getAccessToken\<close>: silent acquisition for the first
  account; every exception is caught and rethrown as ``Token acquisition failed''.
\<close>

definition acquire_silently ::
  "('a, 'n) msal \<Rightarrow> path \<Rightarrow> string \<Rightarrow> 'a \<Rightarrow> string filesystem \<times> 'n
     \<Rightarrow> (js_error + string) \<times> string filesystem \<times> 'n" where
  "acquire_silently lib cachePath cacheData account = (\<lambda>(fs, net).
     case acquireTokenSilent lib cacheData account silent_scopes net of
       (response, contexts, net') \<Rightarrow>
         (case afterCacheAccesses cachePath contexts fs of
            (Some e, fs') \<Rightarrow> (Inl (acquisition_failed (FsError e)), fs', net')
          | (None, fs') \<Rightarrow>
              (case response of
                 Inl err \<Rightarrow> (Inl (acquisition_failed err), fs', net')
               | Inr accessToken \<Rightarrow> (Inr accessToken, fs', net'))))"

text \<open>
  The part of \<^verbatim>\<open>getAccessToken\<close> after the file has been read: the accounts are
  listed (outside the \<^verbatim>\<open>try\<close> block, so an exception propagates as it is), and an
  empty list is an error.
\<close>

definition with_cache_data ::
  "('a, 'n) msal \<Rightarrow> path \<Rightarrow> string \<Rightarrow> string filesystem \<times> 'n
     \<Rightarrow> (js_error + string) \<times> string filesystem \<times> 'n" where
  "with_cache_data lib cachePath cacheData = (\<lambda>(fs, net).
     case getAllAccounts lib cacheData net of
       (accounts, contexts, net') \<Rightarrow>
         (case afterCacheAccesses cachePath contexts fs of
            (Some e, fs') \<Rightarrow> (Inl (FsError e), fs', net')
          | (None, fs') \<Rightarrow>
              (case accounts of
                 Inl err \<Rightarrow> (Inl err, fs', net')
               | Inr [] \<Rightarrow> (Inl (Error ''No account found. Run: node msal-auth.mjs''), fs', net')
               | Inr (account # _) \<Rightarrow> acquire_silently lib cachePath cacheData account (fs', net'))))"

text \<open>
  \<^verbatim>\<open>getAccessToken\<close>. The state is the filesystem and the network state. The file is
  read once, before the library is called, and the read is not guarded.
\<close>

definition getAccessToken ::
  "('a, 'n) msal \<Rightarrow> path list \<Rightarrow> string filesystem \<times> 'n
     \<Rightarrow> (js_error + string) \<times> string filesystem \<times> 'n" where
  "getAccessToken lib paths = (\<lambda>(fs, net).
     case findTokenCache paths fs of
       None \<Rightarrow> (Inl (Error ''No token cache found. Run: node msal-auth.mjs''), fs, net)
     | Some cachePath \<Rightarrow>
         if \<not> existsSync fs cachePath
         then (Inl (Error ''No token cache found. Run: node msal-auth.mjs''), fs, net)
         else
           (case readFileSync fs cachePath of
              Inl e \<Rightarrow> (Inl (FsError e), fs, net)
            | Inr cacheData \<Rightarrow> with_cache_data lib cachePath cacheData (fs, net)))"

section \<open>JavaScript values used by the device-code script\<close>

text \<open>
  An environment variable or a field of a JSON response is a string or
  \<^verbatim>\<open>undefined\<close> (\<open>None\<close>). A string is truthy when it is not empty.
\<close>

definition truthy :: "string option \<Rightarrow> bool" where
  "truthy v = (case v of None \<Rightarrow> False | Some s \<Rightarrow> s \<noteq> [])"

text \<open>\<^verbatim>\<open>a || b\<close> on such values.\<close>

definition js_or :: "string option \<Rightarrow> string option \<Rightarrow> string option" where
  "js_or a b = (if truthy a then a else b)"

text \<open>Interpolation into a template literal or a form field: \<^verbatim>\<open>`${v}`\<close>.\<close>

definition tmpl :: "string option \<Rightarrow> string" where
  "tmpl v = (case v of None \<Rightarrow> ''undefined'' | Some s \<Rightarrow> s)"

text \<open>
  Numbers are integers or \<^verbatim>\<open>NaN\<close> (\<open>None\<close>): the numeric fields of the provider's
  responses are whole seconds, and arithmetic on a missing field gives \<^verbatim>\<open>NaN\<close>.
  JavaScript numbers are doubles: sums and products of integers are exact as long as
  operands and result are safe integers (of magnitude at most \<open>2\<^sup>5\<^sup>3 - 1\<close>), and the
  integer model is the program's arithmetic within that range only.
\<close>

type_synonym js_number = "int option"

text \<open>\<^verbatim>\<open>a < b\<close> where \<open>b\<close> may be \<^verbatim>\<open>NaN\<close>: a comparison with \<^verbatim>\<open>NaN\<close> is false.\<close>

definition js_less :: "int \<Rightarrow> js_number \<Rightarrow> bool" where
  "js_less a b = (case b of None \<Rightarrow> False | Some b' \<Rightarrow> a < b')"

definition safe_integer :: "int \<Rightarrow> bool" where
  "safe_integer i = (- 9007199254740991 \<le> i \<and> i \<le> 9007199254740991)"

text \<open>
  \<^verbatim>\<open>Number.prototype.toString\<close> in base ten, and the reading of such a string as a
  number. JavaScript prints a safe integer in plain decimal digits, as \<open>toString\<close>
  does; from \<open>10\<^sup>2\<^sup>1\<close> on it prints exponent notation, which \<open>toString\<close> does
  not model. Statements about printed numbers are therefore made for safe integers.
\<close>

definition digit :: "nat \<Rightarrow> char" where
  "digit d = char_of (48 + d)"

function digits :: "nat \<Rightarrow> string" where
  "digits n = (if n < 10 then [digit n] else digits (n div 10) @ [digit (n mod 10)])"
  by pat_completeness auto
termination
  by (relation "measure id") auto

declare digits.simps [simp del]

definition toString :: "js_number \<Rightarrow> string" where
  "toString x =
     (case x of
        None \<Rightarrow> ''NaN''
      | Some i \<Rightarrow> if i < 0 then CHR ''-'' # digits (nat (- i)) else digits (nat i))"

definition digit_value :: "char \<Rightarrow> nat option" where
  "digit_value c =
     (let k = (of_char c :: nat) in if 48 \<le> k \<and> k < 58 then Some (k - 48) else None)"

fun read_digits :: "nat option \<Rightarrow> string \<Rightarrow> nat option" where
  "read_digits acc [] = acc"
| "read_digits acc (c # cs) =
     (case digit_value c of
        None \<Rightarrow> None
      | Some d \<Rightarrow> read_digits (Some ((case acc of None \<Rightarrow> 0 | Some a \<Rightarrow> a * 10) + d)) cs)"

definition Number :: "string \<Rightarrow> js_number" where
  "Number s =
     (case s of
        [] \<Rightarrow> None
      | c # cs \<Rightarrow>
          if c = CHR ''-'' then map_option (\<lambda>n. - int n) (read_digits None cs)
          else map_option int (read_digits None s))"

text \<open>
  A JSON document is a string or an object; these are the only JSON values the
  credential store contains (the epoch times are stored as decimal strings). The
  properties of an object are listed in the order \<^verbatim>\<open>Object.keys\<close> enumerates them.
\<close>

datatype json = JStr string | JObj "(string \<times> json) list"

text \<open>\<^verbatim>\<open>value[k]\<close>: \<^verbatim>\<open>undefined\<close> for a missing property and on a string.\<close>

definition get_prop :: "json \<Rightarrow> string \<Rightarrow> json option" where
  "get_prop j k = (case j of JStr s \<Rightarrow> None | JObj ps \<Rightarrow> map_of ps k)"

text \<open>
  A property of an object literal whose value may be \<^verbatim>\<open>undefined\<close>:
  \<^verbatim>\<open>JSON.stringify\<close> leaves such a property out.
\<close>

definition opt_prop :: "string \<Rightarrow> string option \<Rightarrow> (string \<times> json) list" where
  "opt_prop k v = (case v of None \<Rightarrow> [] | Some s \<Rightarrow> [(k, JStr s)])"

text \<open>
  \<^verbatim>\<open>obj[k] = v\<close> as the serialised document shows it: an existing property keeps its
  place, a new one is added at the end, and a property set to \<^verbatim>\<open>undefined\<close> is left
  out by \<^verbatim>\<open>JSON.stringify\<close>.
\<close>

definition set_prop :: "string \<Rightarrow> string option \<Rightarrow> (string \<times> json) list \<Rightarrow> (string \<times> json) list" where
  "set_prop k v ps =
     (case v of None \<Rightarrow> AList.delete k ps | Some s \<Rightarrow> AList.update k (JStr s) ps)"

section \<open>Configuration, provider and world of the device-code script\<close>

text \<open>
  The module constants read from the environment, and \<^verbatim>\<open>TOKEN_CACHE_PATH\<close>
  (\<^verbatim>\<open>path.join(__dirname, '.m365-token-cache.json')\<close>).
\<close>

record config =
  TENANT_ID :: "string option"
  CLIENT_ID :: "string option"
  CLIENT_SECRET :: "string option"
  TOKEN_CACHE_PATH :: path

definition SCOPES :: string where
  "SCOPES = ''Calendars.Read Mail.Read Mail.ReadWrite offline_access''"

text \<open>
  The JSON bodies the script reads, with the fields it uses. A body is a JSON object;
  a field is \<open>None\<close> when the object does not have it.
\<close>

record deviceCode =
  device_code :: "string option"
  interval :: "int option"
  expires_in :: "int option"

record tokenResult =
  error :: "string option"
  error_description :: "string option"
  access_token :: "string option"
  refresh_token :: "string option"
  id_token :: "string option"
  token_expires_in :: "int option"

record user =
  displayName :: "string option"
  mail :: "string option"
  userPrincipalName :: "string option"

text \<open>
  What a \<^verbatim>\<open>fetch\<close> call meets: the promise rejects (\<open>Rejected\<close>), or a response arrives
  with its \<^verbatim>\<open>ok\<close> flag and its body (\<open>None\<close> when the body is not JSON, so that
  \<^verbatim>\<open>response.json()\<close> throws). The first component is the time the call takes, in
  milliseconds.
\<close>

datatype 'b http_outcome = Rejected nat | Response nat bool "'b option"

fun latency :: "'b http_outcome \<Rightarrow> nat" where
  "latency (Rejected ms) = ms"
| "latency (Response ms ok body) = ms"

text \<open>
  The identity provider and the profile endpoint: what the device-code request meets,
  what the \<open>n\<close>-th token request meets (counting from 0), what the profile request meets.
\<close>

record provider =
  deviceCodeEndpoint :: "deviceCode http_outcome"
  tokenEndpoint :: "nat \<Rightarrow> tokenResult http_outcome"
  profileEndpoint :: "user http_outcome"

datatype request = Request string string "(string \<times> string) list"

text \<open>
  The world of one run: the files, \<^verbatim>\<open>Date.now()\<close> in milliseconds, the number of
  token requests made so far, and the requests issued, each with the time of its issue.
  Console output is not modelled.
\<close>

record world =
  files :: "json filesystem"
  clock :: int
  polls :: nat
  requests :: "(int \<times> request) list"

definition fetch :: "'b http_outcome \<Rightarrow> request \<Rightarrow> world \<Rightarrow> world" where
  "fetch outcome req w =
     w\<lparr>requests := requests w @ [(clock w, req)], clock := clock w + int (latency outcome)\<rparr>"

text \<open>
  \<^verbatim>\<open>sleep(ms)\<close> is \<^verbatim>\<open>setTimeout\<close>: Node replaces a delay below 1 or above
  \<open>2\<^sup>3\<^sup>1 - 1\<close> by 1. The timer is taken to fire exactly when due.
\<close>

definition timer_delay :: "int \<Rightarrow> int" where
  "timer_delay ms = (if ms < 1 \<or> 2147483647 < ms then 1 else ms)"

definition sleep :: "int \<Rightarrow> world \<Rightarrow> world" where
  "sleep ms w = w\<lparr>clock := clock w + timer_delay ms\<rparr>"

section \<open>Writing the credential store (\<^verbatim>\<open>saveTokenCache\<close>)\<close>

definition environment :: string where
  "environment = ''login.microsoftonline.com''"

definition homeAccountId :: "config \<Rightarrow> string" where
  "homeAccountId c = tmpl (TENANT_ID c) @ ''.'' @ tmpl (TENANT_ID c)"

definition account_key :: "config \<Rightarrow> string" where
  "account_key c = homeAccountId c @ ''-'' @ environment @ ''-'' @ tmpl (TENANT_ID c)"

text \<open>\<^verbatim>\<open>SCOPES.replace(/ /g, ' ')\<close> replaces each space by a space.\<close>

definition access_token_key :: "config \<Rightarrow> string" where
  "access_token_key c =
     homeAccountId c @ ''-'' @ environment @ ''-accesstoken-'' @ tmpl (CLIENT_ID c)
       @ ''-'' @ tmpl (TENANT_ID c) @ ''-'' @ SCOPES"

definition refresh_token_key :: "config \<Rightarrow> string" where
  "refresh_token_key c =
     homeAccountId c @ ''-'' @ environment @ ''-refreshtoken-'' @ tmpl (CLIENT_ID c) @ ''----''"

definition id_token_key :: "config \<Rightarrow> string" where
  "id_token_key c =
     homeAccountId c @ ''-'' @ environment @ ''-idtoken-'' @ tmpl (CLIENT_ID c)
       @ ''-'' @ tmpl (TENANT_ID c) @ ''---''"

definition account_entry :: "config \<Rightarrow> json" where
  "account_entry c =
     JObj ([(''home_account_id'', JStr (homeAccountId c)),
            (''environment'', JStr environment)]
           @ opt_prop ''realm'' (TENANT_ID c)
           @ opt_prop ''local_account_id'' (TENANT_ID c)
           @ [(''username'', JStr ''user@domain.com''),
              (''authority_type'', JStr ''MSSTS'')])"

text \<open>
  The access-token entry; \<open>now\<close> is \<^verbatim>\<open>Math.floor(Date.now() / 1000)\<close> and
  \<open>expiresOn\<close> is \<^verbatim>\<open>now + tokens.expires_in\<close>.
\<close>

definition access_token_entry :: "config \<Rightarrow> tokenResult \<Rightarrow> int \<Rightarrow> js_number \<Rightarrow> json" where
  "access_token_entry c tokens now expiresOn =
     JObj ([(''home_account_id'', JStr (homeAccountId c)),
            (''environment'', JStr environment),
            (''credential_type'', JStr ''AccessToken'')]
           @ opt_prop ''client_id'' (CLIENT_ID c)
           @ opt_prop ''secret'' (access_token tokens)
           @ opt_prop ''realm'' (TENANT_ID c)
           @ [(''target'', JStr SCOPES),
              (''cached_at'', JStr (toString (Some now))),
              (''expires_on'', JStr (toString expiresOn)),
              (''extended_expires_on'', JStr (toString (map_option (\<lambda>e. e + 3600) expiresOn))),
              (''token_type'', JStr ''Bearer'')])"

definition refresh_token_entry :: "config \<Rightarrow> tokenResult \<Rightarrow> json" where
  "refresh_token_entry c tokens =
     JObj ([(''home_account_id'', JStr (homeAccountId c)),
            (''environment'', JStr environment),
            (''credential_type'', JStr ''RefreshToken'')]
           @ opt_prop ''client_id'' (CLIENT_ID c)
           @ opt_prop ''secret'' (refresh_token tokens))"

definition id_token_entry :: "config \<Rightarrow> tokenResult \<Rightarrow> json" where
  "id_token_entry c tokens =
     JObj ([(''home_account_id'', JStr (homeAccountId c)),
            (''environment'', JStr environment),
            (''credential_type'', JStr ''IdToken'')]
           @ opt_prop ''client_id'' (CLIENT_ID c)
           @ opt_prop ''secret'' (id_token tokens)
           @ opt_prop ''realm'' (TENANT_ID c))"

text \<open>
  The \<^verbatim>\<open>cache\<close> object of \<^verbatim>\<open>saveTokenCache\<close> as \<^verbatim>\<open>JSON.stringify\<close> writes it, at
  \<^verbatim>\<open>Date.now() = ms\<close>. The two \<^verbatim>\<open>if\<close> statements add the refresh-token and the
  id-token entry to maps that start empty.
\<close>

definition token_cache :: "config \<Rightarrow> tokenResult \<Rightarrow> int \<Rightarrow> json" where
  "token_cache c tokens ms =
     (let now = ms div 1000;
          expiresOn = map_option (\<lambda>e. now + e) (token_expires_in tokens)
      in JObj
           [(''Account'', JObj [(account_key c, account_entry c)]),
            (''AccessToken'',
               JObj [(access_token_key c, access_token_entry c tokens now expiresOn)]),
            (''RefreshToken'',
               JObj (if truthy (refresh_token tokens)
                     then [(refresh_token_key c, refresh_token_entry c tokens)] else [])),
            (''IdToken'',
               JObj (if truthy (id_token tokens)
                     then [(id_token_key c, id_token_entry c tokens)] else [])),
            (''AppMetadata'', JObj [])])"

definition saveTokenCache :: "config \<Rightarrow> tokenResult \<Rightarrow> world \<Rightarrow> js_error + world" where
  "saveTokenCache c tokens w =
     (case writeFileSync (files w) (TOKEN_CACHE_PATH c) (token_cache c tokens (clock w)) of
        Inl e \<Rightarrow> Inl (FsError e)
      | Inr fs' \<Rightarrow> Inr (w\<lparr>files := fs'\<rparr>))"

section \<open>Profile lookup (\<^verbatim>\<open>showUserInfo\<close>)\<close>

text \<open>
  The update of the parsed cache with the profile. \<open>Inl TypeError\<close>: a property access
  or assignment throws (\<^verbatim>\<open>Object.keys(undefined)\<close>; assigning a property of a string
  in an ES module, which is strict code). \<open>Inr None\<close>: the condition
  \<^verbatim>\<open>accountKey && cache.Account[accountKey]\<close> is falsy, nothing is written.
  \<open>Inr (Some doc)\<close>: \<open>doc\<close> is written.
\<close>

definition update_account :: "user \<Rightarrow> (string \<times> json) list \<Rightarrow> (string \<times> json) list" where
  "update_account u props =
     set_prop ''name'' (displayName u)
       (set_prop ''username'' (js_or (userPrincipalName u) (mail u)) props)"

definition enrich :: "user \<Rightarrow> json \<Rightarrow> js_error + json option" where
  "enrich u cache =
     (case get_prop cache ''Account'' of
        None \<Rightarrow> Inl TypeError
      | Some (JStr s) \<Rightarrow> if s = [] then Inr None else Inl TypeError
      | Some (JObj []) \<Rightarrow> Inr None
      | Some (JObj ((accountKey, account) # others)) \<Rightarrow>
          if accountKey = [] then Inr None
          else
            (case account of
               JStr s \<Rightarrow> if s = [] then Inr None else Inl TypeError
             | JObj props \<Rightarrow>
                 (case cache of
                    JStr s \<Rightarrow> Inl TypeError
                  | JObj maps \<Rightarrow>
                      Inr (Some (JObj (AList.update ''Account''
                        (JObj ((accountKey, JObj (update_account u props)) # others)) maps))))))"

definition profile_request :: "string option \<Rightarrow> request" where
  "profile_request accessToken =
     Request ''GET'' ''https://graph.microsoft.com/v1.0/me''
       [(''Authorization'', ''Bearer '' @ tmpl accessToken)]"

text \<open>
  The \<^verbatim>\<open>try\<close> block of \<^verbatim>\<open>showUserInfo\<close>: the exception thrown, if any, and the world
  at that point. The file holds a JSON document, so \<^verbatim>\<open>JSON.parse\<close> of its text is the
  document.
\<close>

definition showUserInfo_try :: "config \<Rightarrow> provider \<Rightarrow> string option \<Rightarrow> world \<Rightarrow> js_error option \<times> world" where
  "showUserInfo_try c prov accessToken w =
     (let w1 = fetch (profileEndpoint prov) (profile_request accessToken) w
      in case profileEndpoint prov of
           Rejected ms \<Rightarrow> (Some NetworkError, w1)
         | Response ms ok body \<Rightarrow>
             if \<not> ok then (None, w1)
             else
               (case body of
                  None \<Rightarrow> (Some SyntaxError, w1)
                | Some u \<Rightarrow>
                    if \<not> existsSync (files w1) (TOKEN_CACHE_PATH c) then (None, w1)
                    else
                      (case readFileSync (files w1) (TOKEN_CACHE_PATH c) of
                         Inl e \<Rightarrow> (Some (FsError e), w1)
                       | Inr cache \<Rightarrow>
                           (case enrich u cache of
                              Inl e \<Rightarrow> (Some e, w1)
                            | Inr None \<Rightarrow> (None, w1)
                            | Inr (Some doc) \<Rightarrow>
                                (case writeFileSync (files w1) (TOKEN_CACHE_PATH c) doc of
                                   Inl e \<Rightarrow> (Some (FsError e), w1)
                                 | Inr fs' \<Rightarrow> (None, w1\<lparr>files := fs'\<rparr>))))))"

text \<open>\<^verbatim>\<open>showUserInfo\<close>: the \<^verbatim>\<open>catch\<close> block is empty, the exception is dropped.\<close>

definition showUserInfo :: "config \<Rightarrow> provider \<Rightarrow> string option \<Rightarrow> world \<Rightarrow> world" where
  "showUserInfo c prov accessToken w = snd (showUserInfo_try c prov accessToken w)"

section \<open>The device-code flow (\<^verbatim>\<open>initiateDeviceCodeFlow\<close>)\<close>

text \<open>
  How a run ends. \<open>Succeeded\<close> is the normal return (exit code 0); every other outcome
  is a \<^verbatim>\<open>process.exit(1)\<close>: the environment check, a device-code request that is not
  ok, the provider's \<^verbatim>\<open>expired_token\<close>, any other provider error with its printed
  description, the end of the \<^verbatim>\<open>while\<close> loop (``timed out''), and an exception that
  reaches the \<^verbatim>\<open>.catch\<close> handler at the bottom of the script.
\<close>

datatype outcome =
    Succeeded
  | MissingEnvironment
  | DeviceCodeFailed
  | Expired
  | AuthenticationError string
  | TimedOut
  | Uncaught js_error

fun exit_code :: "outcome \<Rightarrow> nat" where
  "exit_code Succeeded = 0"
| "exit_code _ = 1"

text \<open>One pass through the loop body either goes back to the loop test or ends the run.\<close>

datatype step = Continue world | Done outcome world

definition device_code_request :: "config \<Rightarrow> request" where
  "device_code_request c =
     Request ''POST''
       (''https://login.microsoftonline.com/'' @ tmpl (TENANT_ID c) @ ''/oauth2/v2.0/devicecode'')
       [(''client_id'', tmpl (CLIENT_ID c)), (''scope'', SCOPES)]"

definition token_request :: "config \<Rightarrow> deviceCode \<Rightarrow> request" where
  "token_request c dc =
     Request ''POST''
       (''https://login.microsoftonline.com/'' @ tmpl (TENANT_ID c) @ ''/oauth2/v2.0/token'')
       ([(''client_id'', tmpl (CLIENT_ID c)),
         (''grant_type'', ''urn:ietf:params:oauth:grant-type:device_code''),
         (''device_code'', tmpl (device_code dc))]
        @ (if truthy (CLIENT_SECRET c) then [(''client_secret'', tmpl (CLIENT_SECRET c))] else []))"

text \<open>
  The code after the error checks of the loop body: the tokens are saved, the profile is
  looked up, and the function returns. An exception of \<^verbatim>\<open>saveTokenCache\<close> is not caught
  here.
\<close>

definition on_success :: "config \<Rightarrow> provider \<Rightarrow> tokenResult \<Rightarrow> world \<Rightarrow> step" where
  "on_success c prov tokenResult w =
     (case saveTokenCache c tokenResult w of
        Inl e \<Rightarrow> Done (Uncaught e) w
      | Inr w1 \<Rightarrow> Done Succeeded (showUserInfo c prov (access_token tokenResult) w1))"

text \<open>The \<^verbatim>\<open>if (tokenResult.error)\<close> statement and what follows it.\<close>

definition on_token_result :: "config \<Rightarrow> provider \<Rightarrow> tokenResult \<Rightarrow> world \<Rightarrow> step" where
  "on_token_result c prov tokenResult w =
     (if truthy (error tokenResult) then
        (if error tokenResult = Some ''authorization_pending'' then Continue w
         else if error tokenResult = Some ''slow_down'' then Continue (sleep 5000 w)
         else if error tokenResult = Some ''expired_token'' then Done Expired w
         else Done (AuthenticationError
                      (tmpl (js_or (error_description tokenResult) (error tokenResult)))) w)
      else on_success c prov tokenResult w)"

text \<open>The body of the \<^verbatim>\<open>while\<close> loop: sleep, token request, interpretation.\<close>

definition poll_body :: "config \<Rightarrow> provider \<Rightarrow> deviceCode \<Rightarrow> int \<Rightarrow> world \<Rightarrow> step" where
  "poll_body c prov dc pollInterval w =
     (let w1 = sleep pollInterval w;
          w2 = (fetch (tokenEndpoint prov (polls w)) (token_request c dc) w1)
                 \<lparr>polls := Suc (polls w)\<rparr>
      in case tokenEndpoint prov (polls w) of
           Rejected ms \<Rightarrow> Done (Uncaught NetworkError) w2
         | Response ms ok body \<Rightarrow>
             (case body of
                None \<Rightarrow> Done (Uncaught SyntaxError) w2
              | Some tokenResult \<Rightarrow> on_token_result c prov tokenResult w2))"

text \<open>
  The \<^verbatim>\<open>while (Date.now() < expiresAt)\<close> loop and the two statements after it. Each
  pass that continues has moved the clock forward, by the sleep at least.
\<close>

function pollLoop ::
  "config \<Rightarrow> provider \<Rightarrow> deviceCode \<Rightarrow> int \<Rightarrow> js_number \<Rightarrow> world \<Rightarrow> outcome \<times> world" where
  "pollLoop c prov dc pollInterval expiresAt w =
     (if js_less (clock w) expiresAt then
        (case poll_body c prov dc pollInterval w of
           Continue w' \<Rightarrow> pollLoop c prov dc pollInterval expiresAt w'
         | Done out w' \<Rightarrow> (out, w'))
      else (TimedOut, w))"
  by pat_completeness auto
termination
proof (relation "measure (\<lambda>(c, prov, dc, pollInterval, expiresAt, w).
                   nat ((case expiresAt of None \<Rightarrow> 0 | Some t \<Rightarrow> t) - clock w))")
  show "wf (measure (\<lambda>(c, prov, dc, pollInterval, expiresAt, w).
              nat ((case expiresAt of None \<Rightarrow> 0 | Some t \<Rightarrow> t) - clock w)))"
    by simp
next
  fix c prov dc pollInterval expiresAt w w'
  assume before: "js_less (clock w) expiresAt"
    and continue: "poll_body c prov dc pollInterval w = Continue w'"
  have "0 < timer_delay pollInterval"
    by (simp add: timer_delay_def)
  moreover from continue have "clock w + timer_delay pollInterval \<le> clock w'"
    by (auto simp: poll_body_def on_token_result_def on_success_def Let_def fetch_def
          sleep_def timer_delay_def
        split: http_outcome.splits option.splits if_splits sum.splits)
  ultimately have "clock w < clock w'"
    by linarith
  with before
  show "((c, prov, dc, pollInterval, expiresAt, w'), (c, prov, dc, pollInterval, expiresAt, w))
          \<in> measure (\<lambda>(c, prov, dc, pollInterval, expiresAt, w).
               nat ((case expiresAt of None \<Rightarrow> 0 | Some t \<Rightarrow> t) - clock w))"
    by (auto simp: js_less_def split: option.splits)
qed

declare pollLoop.simps [simp del]

text \<open>\<^verbatim>\<open>deviceCode.interval * 1000 || 5000\<close>: \<^verbatim>\<open>NaN\<close> and 0 are falsy.\<close>

definition poll_interval :: "deviceCode \<Rightarrow> int" where
  "poll_interval dc =
     (case interval dc of
        None \<Rightarrow> 5000
      | Some i \<Rightarrow> if i * 1000 = 0 then 5000 else i * 1000)"

text \<open>\<^verbatim>\<open>Date.now() + (deviceCode.expires_in * 1000)\<close>.\<close>

definition expires_at :: "deviceCode \<Rightarrow> world \<Rightarrow> js_number" where
  "expires_at dc w = map_option (\<lambda>e. clock w + e * 1000) (expires_in dc)"

definition initiateDeviceCodeFlow :: "config \<Rightarrow> provider \<Rightarrow> world \<Rightarrow> outcome \<times> world" where
  "initiateDeviceCodeFlow c prov w =
     (if \<not> truthy (TENANT_ID c) \<or> \<not> truthy (CLIENT_ID c) then (MissingEnvironment, w)
      else
        (let w1 = fetch (deviceCodeEndpoint prov) (device_code_request c) w
         in case deviceCodeEndpoint prov of
              Rejected ms \<Rightarrow> (Uncaught NetworkError, w1)
            | Response ms ok body \<Rightarrow>
                if \<not> ok then (DeviceCodeFailed, w1)
                else
                  (case body of
                     None \<Rightarrow> (Uncaught SyntaxError, w1)
                   | Some dc \<Rightarrow> pollLoop c prov dc (poll_interval dc) (expires_at dc w1) w1)))"

section \<open>Well-formed credential stores\<close>

text \<open>
  The invariant of the store document: the five top-level maps are present, and every
  access-token entry holds decimal epoch times with \<open>cached_at \<le> expires_on\<close>.
\<close>

definition top_level_maps :: "string list" where
  "top_level_maps = [''Account'', ''AccessToken'', ''RefreshToken'', ''IdToken'', ''AppMetadata'']"

definition is_map :: "json option \<Rightarrow> bool" where
  "is_map v = (case v of Some (JObj ps) \<Rightarrow> True | _ \<Rightarrow> False)"

definition number_prop :: "json \<Rightarrow> string \<Rightarrow> js_number" where
  "number_prop j k = (case get_prop j k of Some (JStr s) \<Rightarrow> Number s | _ \<Rightarrow> None)"

definition times_ordered :: "json \<Rightarrow> bool" where
  "times_ordered entry =
     (case number_prop entry ''cached_at'' of
        None \<Rightarrow> False
      | Some cached \<Rightarrow>
          (case number_prop entry ''expires_on'' of
             None \<Rightarrow> False
           | Some expires \<Rightarrow> cached \<le> expires))"

definition access_tokens :: "json \<Rightarrow> json list" where
  "access_tokens doc =
     (case get_prop doc ''AccessToken'' of Some (JObj entries) \<Rightarrow> map snd entries | _ \<Rightarrow> [])"

definition maps_present :: "json \<Rightarrow> bool" where
  "maps_present doc = list_all (\<lambda>k. is_map (get_prop doc k)) top_level_maps"

definition well_formed :: "json \<Rightarrow> bool" where
  "well_formed doc = (maps_present doc \<and> list_all times_ordered (access_tokens doc))"

section \<open>Concrete scenarios\<close>

text \<open>
  A stand-in for the MSAL library whose silent acquisition refreshes the token: it
  reports a changed cache and hands over the new serialised cache.
\<close>

definition refreshing_library :: "(string, nat) msal" where
  "refreshing_library =
     \<lparr>getAllAccounts = (\<lambda>cacheData net.
        (Inr [''account''], [\<lparr>cacheHasChanged = False, serialize = cacheData\<rparr>], net)),
      acquireTokenSilent = (\<lambda>cacheData account scopes net.
        (Inr ''AT2'', [\<lparr>cacheHasChanged = True, serialize = ''refreshed''\<rparr>], Suc net))\<rparr>"

text \<open>Only the last fallback location holds a cache; the local file does not exist.\<close>

definition fallback_only :: "string filesystem" where
  "fallback_only =
     Map.empty(''/data/.openclaw/tools/m365/.token-cache.json'' \<mapsto> File ''cached'')"

text \<open>The local cache file exists but the process may not read it.\<close>

definition unreadable_local :: "string filesystem" where
  "unreadable_local = Map.empty(''/app/.m365-token-cache.json'' \<mapsto> Blocked EACCES)"

text \<open>Tenant and client id are set, the client secret is not.\<close>

definition no_secret :: config where
  "no_secret =
     \<lparr>TENANT_ID = Some ''tenant'', CLIENT_ID = Some ''client'', CLIENT_SECRET = None,
      TOKEN_CACHE_PATH = ''/app/.m365-token-cache.json''\<rparr>"

definition no_tenant :: config where
  "no_tenant =
     \<lparr>TENANT_ID = None, CLIENT_ID = Some ''client'', CLIENT_SECRET = Some ''secret'',
      TOKEN_CACHE_PATH = ''/app/.m365-token-cache.json''\<rparr>"

definition start :: world where
  "start = \<lparr>files = Map.empty, clock = 0, polls = 0, requests = []\<rparr>"

definition pending :: tokenResult where
  "pending =
     \<lparr>error = Some ''authorization_pending'', error_description = None, access_token = None,
      refresh_token = None, id_token = None, token_expires_in = None\<rparr>"

definition slowed :: tokenResult where
  "slowed =
     \<lparr>error = Some ''slow_down'', error_description = None, access_token = None,
      refresh_token = None, id_token = None, token_expires_in = None\<rparr>"

definition granted :: tokenResult where
  "granted =
     \<lparr>error = None, error_description = None, access_token = Some ''AT'',
      refresh_token = Some ''RT'', id_token = None, token_expires_in = Some 3600\<rparr>"

text \<open>A device code that is valid for 12 seconds, to be polled every 5 seconds.\<close>

definition short_code :: deviceCode where
  "short_code = \<lparr>device_code = Some ''DC'', interval = Some 5, expires_in = Some 12\<rparr>"

text \<open>The user authorises between the second and the third token request.\<close>

definition late_grant :: provider where
  "late_grant =
     \<lparr>deviceCodeEndpoint = Response 0 True (Some short_code),
      tokenEndpoint = (\<lambda>n. if n < 2 then Response 0 True (Some pending)
                            else Response 0 True (Some granted)),
      profileEndpoint = Rejected 0\<rparr>"

text \<open>The user never authorises.\<close>

definition never_granting :: provider where
  "never_granting =
     \<lparr>deviceCodeEndpoint = Response 0 True (Some short_code),
      tokenEndpoint = (\<lambda>n. Response 0 True (Some pending)),
      profileEndpoint = Rejected 0\<rparr>"

text \<open>The provider answers the first token request with \<^verbatim>\<open>slow_down\<close>, then grants.\<close>

definition slowing :: provider where
  "slowing =
     \<lparr>deviceCodeEndpoint = Response 0 True (Some short_code),
      tokenEndpoint = (\<lambda>n. if n = 0 then Response 200 True (Some slowed)
                            else Response 200 True (Some granted)),
      profileEndpoint = Response 100 False None\<rparr>"

text \<open>A grant whose body has no \<^verbatim>\<open>expires_in\<close> field, at the first token request.\<close>

definition granted_no_expiry :: tokenResult where
  "granted_no_expiry =
     \<lparr>error = None, error_description = None, access_token = Some ''AT'',
      refresh_token = Some ''RT'', id_token = None, token_expires_in = None\<rparr>"

definition grant_without_expiry :: provider where
  "grant_without_expiry =
     \<lparr>deviceCodeEndpoint = Response 0 True (Some short_code),
      tokenEndpoint = (\<lambda>n. Response 0 True (Some granted_no_expiry)),
      profileEndpoint = Rejected 0\<rparr>"

definition ada :: user where
  "ada = \<lparr>displayName = Some ''Ada'', mail = None, userPrincipalName = Some ''ada@example.com''\<rparr>"

section \<open>Properties of the resolver\<close>

lemma first_existing_None: "first_existing fs ps = None \<longleftrightarrow> (\<forall>p \<in> set ps. \<not> existsSync fs p)"
  by (induction ps) auto

lemma first_existing_Some:
  "first_existing fs ps = Some q \<longleftrightarrow>
     (\<exists>i < length ps. ps ! i = q \<and> existsSync fs q \<and> (\<forall>j < i. \<not> existsSync fs (ps ! j)))"
proof (induction ps)
  case Nil
  show ?case by simp
next
  case (Cons p ps)
  show ?case
  proof (cases "existsSync fs p")
    case True
    have "(\<exists>i < length (p # ps). (p # ps) ! i = q \<and> existsSync fs q
            \<and> (\<forall>j < i. \<not> existsSync fs ((p # ps) ! j))) \<longleftrightarrow> p = q"
    proof
      assume "\<exists>i < length (p # ps). (p # ps) ! i = q \<and> existsSync fs q
                \<and> (\<forall>j < i. \<not> existsSync fs ((p # ps) ! j))"
      then obtain i where i: "(p # ps) ! i = q" "\<forall>j < i. \<not> existsSync fs ((p # ps) ! j)"
        by blast
      have "i = 0"
      proof (rule ccontr)
        assume "i \<noteq> 0"
        then have "0 < i" by simp
        with i(2) have "\<not> existsSync fs ((p # ps) ! 0)" by blast
        with True show False by simp
      qed
      with i(1) show "p = q" by simp
    next
      assume "p = q"
      with True show "\<exists>i < length (p # ps). (p # ps) ! i = q \<and> existsSync fs q
                        \<and> (\<forall>j < i. \<not> existsSync fs ((p # ps) ! j))"
        by (intro exI [of _ 0]) simp
    qed
    with True show ?thesis by auto
  next
    case False
    have "(\<exists>i < length (p # ps). (p # ps) ! i = q \<and> existsSync fs q
            \<and> (\<forall>j < i. \<not> existsSync fs ((p # ps) ! j)))
          \<longleftrightarrow> (\<exists>i < length ps. ps ! i = q \<and> existsSync fs q
            \<and> (\<forall>j < i. \<not> existsSync fs (ps ! j)))"
      (is "?L \<longleftrightarrow> ?R")
    proof
      assume ?L
      then obtain i where i: "i < length (p # ps)" "(p # ps) ! i = q" "existsSync fs q"
        "\<forall>j < i. \<not> existsSync fs ((p # ps) ! j)" by blast
      from i(2,3) False have "i \<noteq> 0" by (cases i) auto
      then obtain k where k: "i = Suc k" by (cases i) auto
      have "\<forall>j < k. \<not> existsSync fs (ps ! j)"
      proof (intro allI impI)
        fix j assume "j < k"
        then have "Suc j < i" using k by simp
        with i(4) have "\<not> existsSync fs ((p # ps) ! Suc j)" by blast
        then show "\<not> existsSync fs (ps ! j)" by simp
      qed
      with i k show ?R by (intro exI [of _ k]) simp
    next
      assume ?R
      then obtain k where k: "k < length ps" "ps ! k = q" "existsSync fs q"
        "\<forall>j < k. \<not> existsSync fs (ps ! j)" by blast
      have "\<forall>j < Suc k. \<not> existsSync fs ((p # ps) ! j)"
      proof (intro allI impI)
        fix j assume "j < Suc k"
        then show "\<not> existsSync fs ((p # ps) ! j)"
          using False k(4) by (cases j) auto
      qed
      with k show ?L by (intro exI [of _ "Suc k"]) simp
    qed
    with False Cons.IH show ?thesis by simp
  qed
qed

text \<open>
  Claim C1. For every non-empty ordered list of candidate paths and every filesystem,
  \<^verbatim>\<open>findTokenCache\<close> returns the first path of the list that exists (the path at the
  least index whose node exists); if no candidate exists it returns the first path of
  the list.
\<close>

theorem findTokenCache_first_existing_or_primary:
  assumes "paths \<noteq> []"
  shows "(\<exists>i < length paths. findTokenCache paths fs = Some (paths ! i)
            \<and> existsSync fs (paths ! i) \<and> (\<forall>j < i. \<not> existsSync fs (paths ! j)))
         \<or> ((\<forall>p \<in> set paths. \<not> existsSync fs p) \<and> findTokenCache paths fs = Some (paths ! 0))"
proof (cases "first_existing fs paths")
  case None
  then have "\<forall>p \<in> set paths. \<not> existsSync fs p"
    by (simp add: first_existing_None)
  moreover from None assms have "findTokenCache paths fs = Some (paths ! 0)"
    by (cases paths) (simp_all add: findTokenCache_def)
  ultimately show ?thesis by blast
next
  case (Some q)
  then obtain i where "i < length paths" "paths ! i = q" "existsSync fs q"
    "\<forall>j < i. \<not> existsSync fs (paths ! j)"
    using first_existing_Some [of fs paths q] by blast
  moreover from Some have "findTokenCache paths fs = Some q"
    by (simp add: findTokenCache_def)
  ultimately show ?thesis by blast
qed

theorem findTokenCache_first_existing_or_primary_witness:
  "TOKEN_CACHE_PATHS ''/app/.m365-token-cache.json'' \<noteq> []
   \<and> findTokenCache (TOKEN_CACHE_PATHS ''/app/.m365-token-cache.json'')
        (Map.empty(''/data/.openclaw/tools/m365/.token-cache.json'' \<mapsto> File ''{}''))
      = Some ''/data/.openclaw/tools/m365/.token-cache.json''
   \<and> findTokenCache (TOKEN_CACHE_PATHS ''/app/.m365-token-cache.json'')
        (Map.empty :: string filesystem)
      = Some ''/app/.m365-token-cache.json''"
proof -
  have ne: "TOKEN_CACHE_PATHS ''/app/.m365-token-cache.json'' \<noteq> []"
    by (simp add: TOKEN_CACHE_PATHS_def)
  have a: "findTokenCache (TOKEN_CACHE_PATHS ''/app/.m365-token-cache.json'')
        (Map.empty(''/data/.openclaw/tools/m365/.token-cache.json'' \<mapsto> File ''{}''))
      = Some ''/data/.openclaw/tools/m365/.token-cache.json''"
    using findTokenCache_first_existing_or_primary [OF ne,
        of "Map.empty(''/data/.openclaw/tools/m365/.token-cache.json'' \<mapsto> File ''{}'')"]
    by (simp add: TOKEN_CACHE_PATHS_def findTokenCache_def existsSync_def)
  have b: "findTokenCache (TOKEN_CACHE_PATHS ''/app/.m365-token-cache.json'')
        (Map.empty :: string filesystem) = Some ''/app/.m365-token-cache.json''"
    by (simp add: TOKEN_CACHE_PATHS_def findTokenCache_def existsSync_def)
  from ne a b show ?thesis by blast
qed


section \<open>Where the credential store is written (\<^verbatim>\<open>m365-cli.js\<close>)\<close>

lemma afterCacheAccesses_frame:
  "afterCacheAccesses p contexts fs = (r, fs') \<Longrightarrow> fs' = fs \<or> (\<exists>doc. fs' = fs(p \<mapsto> File doc))"
proof (induction contexts arbitrary: fs)
  case Nil
  then show ?case by simp
next
  case (Cons c cs)
  show ?case
  proof (cases "afterCacheAccess p c fs")
    case (Inl e)
    with Cons.prems show ?thesis by simp
  next
    case (Inr fs1)
    with Cons.prems have rest: "afterCacheAccesses p cs fs1 = (r, fs')" by simp
    from Inr have "fs1 = fs \<or> (\<exists>doc. fs1 = fs(p \<mapsto> File doc))"
      by (auto simp: afterCacheAccess_def writeFileSync_def
            split: if_splits option.splits node.splits)
    moreover from Cons.IH [OF rest] have "fs' = fs1 \<or> (\<exists>doc. fs' = fs1(p \<mapsto> File doc))" .
    ultimately show ?thesis by auto
  qed
qed

lemma acquire_silently_frame:
  "acquire_silently lib p cacheData account (fs, net) = (r, fs', net')
     \<Longrightarrow> fs' = fs \<or> (\<exists>doc. fs' = fs(p \<mapsto> File doc))"
  unfolding acquire_silently_def
  by (auto split: prod.splits option.splits sum.splits dest: afterCacheAccesses_frame)

lemma with_cache_data_frame:
  assumes "with_cache_data lib p cacheData (fs, net) = (r, fs', net')"
  shows "fs' = fs \<or> (\<exists>doc. fs' = fs(p \<mapsto> File doc))"
proof -
  obtain accounts contexts net1
    where g: "getAllAccounts lib cacheData net = (accounts, contexts, net1)"
    by (cases "getAllAccounts lib cacheData net") auto
  obtain e1 fs1 where a: "afterCacheAccesses p contexts fs = (e1, fs1)"
    by (cases "afterCacheAccesses p contexts fs") auto
  from afterCacheAccesses_frame [OF a]
  have f1: "fs1 = fs \<or> (\<exists>doc. fs1 = fs(p \<mapsto> File doc))" .
  show ?thesis
  proof (cases "\<exists>account rest. e1 = None \<and> accounts = Inr (account # rest)")
    case True
    then obtain account rest where "e1 = None" "accounts = Inr (account # rest)" by blast
    with assms g a have "acquire_silently lib p cacheData account (fs1, net1) = (r, fs', net')"
      by (simp add: with_cache_data_def)
    from acquire_silently_frame [OF this] f1 show ?thesis by auto
  next
    case False
    with assms g a have "fs' = fs1"
      by (auto simp: with_cache_data_def split: option.splits sum.splits list.splits)
    with f1 show ?thesis by simp
  qed
qed

lemma getAccessToken_frame:
  assumes "getAccessToken lib paths (fs, net) = (r, fs', net')"
  shows "fs' = fs
         \<or> (\<exists>p doc. findTokenCache paths fs = Some p \<and> existsSync fs p \<and> fs' = fs(p \<mapsto> File doc))"
  using assms unfolding getAccessToken_def
  by (auto split: option.splits if_splits sum.splits dest: with_cache_data_frame)

text \<open>
  What \<^verbatim>\<open>getAccessToken\<close> itself contributes to a cache hit: it issues no request of
  its own, and with a library that never reports a changed cache it leaves every file
  as it was. Whether a hit changes the cache is decided inside the library.
\<close>

lemma afterCacheAccesses_unchanged:
  "\<forall>context \<in> set contexts. \<not> cacheHasChanged context
     \<Longrightarrow> afterCacheAccesses p contexts fs = (None, fs)"
  by (induction contexts) (simp_all add: afterCacheAccess_def)

lemma getAccessToken_read_only:
  assumes "\<forall>cacheData net. \<forall>context \<in> set (fst (snd (getAllAccounts lib cacheData net))).
             \<not> cacheHasChanged context"
    and "\<forall>cacheData account scopes net.
           \<forall>context \<in> set (fst (snd (acquireTokenSilent lib cacheData account scopes net))).
             \<not> cacheHasChanged context"
  shows "fst (snd (getAccessToken lib paths (fs, net))) = fs"
proof -
  have silent: "fst (snd (acquire_silently lib p cacheData account (fs, n))) = fs"
    for p cacheData account n
  proof -
    obtain response contexts n' where
      call: "acquireTokenSilent lib cacheData account silent_scopes n = (response, contexts, n')"
      by (cases "acquireTokenSilent lib cacheData account silent_scopes n") auto
    with assms(2) have "\<forall>context \<in> set contexts. \<not> cacheHasChanged context"
      by (metis fst_conv snd_conv)
    then have "afterCacheAccesses p contexts fs = (None, fs)"
      by (rule afterCacheAccesses_unchanged)
    with call show ?thesis
      by (simp add: acquire_silently_def split: sum.splits)
  qed
  have listed: "fst (snd (with_cache_data lib p cacheData (fs, n))) = fs" for p cacheData n
  proof -
    obtain accounts contexts n' where
      call: "getAllAccounts lib cacheData n = (accounts, contexts, n')"
      by (cases "getAllAccounts lib cacheData n") auto
    with assms(1) have "\<forall>context \<in> set contexts. \<not> cacheHasChanged context"
      by (metis fst_conv snd_conv)
    then have "afterCacheAccesses p contexts fs = (None, fs)"
      by (rule afterCacheAccesses_unchanged)
    with call silent show ?thesis
      by (simp add: with_cache_data_def split: sum.splits list.splits)
  qed
  show ?thesis
    by (simp add: getAccessToken_def listed split: option.splits sum.splits)
qed

lemma saveCache_primary:
  assumes "saveCache stringify paths cache fs = Inr fs'"
  shows "\<exists>p0 rest. paths = p0 # rest \<and> fs' = fs(p0 \<mapsto> File (stringify cache))"
  using assms unfolding saveCache_def writeFileSync_def
  by (auto split: list.splits option.splits node.splits sum.splits)

lemma refreshing_run:
  "getAccessToken refreshing_library (TOKEN_CACHE_PATHS ''/app/.m365-token-cache.json'')
     (fallback_only, 0)
   = (Inr ''AT2'',
      fallback_only(''/data/.openclaw/tools/m365/.token-cache.json'' \<mapsto> File ''refreshed''),
      1)"
  by (simp add: getAccessToken_def findTokenCache_def TOKEN_CACHE_PATHS_def fallback_only_def
        existsSync_def readFileSync_def with_cache_data_def refreshing_library_def
        acquire_silently_def afterCacheAccess_def writeFileSync_def)

text \<open>
  Claim C3, as stated, at a concrete input. Only the last fallback location holds a
  cache and the library refreshes the token: the refreshed cache is written to the
  fallback file, and the primary (first) path still does not exist afterwards.
\<close>

theorem refresh_write_not_primary_counterexample:
  "fst (getAccessToken refreshing_library (TOKEN_CACHE_PATHS ''/app/.m365-token-cache.json'')
          (fallback_only, 0)) = Inr ''AT2''
   \<and> fst (snd (getAccessToken refreshing_library
          (TOKEN_CACHE_PATHS ''/app/.m365-token-cache.json'') (fallback_only, 0)))
        ''/data/.openclaw/tools/m365/.token-cache.json'' = Some (File ''refreshed'')
   \<and> fst (snd (getAccessToken refreshing_library
          (TOKEN_CACHE_PATHS ''/app/.m365-token-cache.json'') (fallback_only, 0)))
        (TOKEN_CACHE_PATHS ''/app/.m365-token-cache.json'' ! 0) = None"
  by (simp add: refreshing_run) (simp add: fallback_only_def TOKEN_CACHE_PATHS_def)

text \<open>
  Claim C3, amended. The explicit save operation \<^verbatim>\<open>saveCache\<close> writes the first path
  of the candidate list. The persistence inside \<^verbatim>\<open>getAccessToken\<close> writes the path
  that \<^verbatim>\<open>findTokenCache\<close> resolved and that was read, which is the first candidate
  that exists. Either write replaces the whole content of that one file and leaves
  every other path as it was.
\<close>

theorem store_writes_replace_one_file:
  "(saveCache stringify paths cache fs = Inr fs1 \<longrightarrow>
      (\<exists>p0 rest. paths = p0 # rest \<and> fs1 = fs(p0 \<mapsto> File (stringify cache))))
   \<and> (getAccessToken lib paths (fs, net) = (r, fs2, net') \<longrightarrow>
        fs2 = fs
        \<or> (\<exists>p doc. findTokenCache paths fs = Some p \<and> existsSync fs p
              \<and> fs2 = fs(p \<mapsto> File doc)))"
  using saveCache_primary [of stringify paths cache fs fs1]
    getAccessToken_frame [of lib paths fs net r fs2 net']
  by blast

theorem store_writes_replace_one_file_witness:
  "saveCache (\<lambda>j. j) (TOKEN_CACHE_PATHS ''/app/.m365-token-cache.json'') ''{}'' fallback_only
     = Inr (fallback_only(''/app/.m365-token-cache.json'' \<mapsto> File ''{}''))
   \<and> getAccessToken refreshing_library (TOKEN_CACHE_PATHS ''/app/.m365-token-cache.json'')
        (fallback_only, 0)
      = (Inr ''AT2'',
         fallback_only(''/data/.openclaw/tools/m365/.token-cache.json'' \<mapsto> File ''refreshed''),
         1)
   \<and> findTokenCache (TOKEN_CACHE_PATHS ''/app/.m365-token-cache.json'') fallback_only
      = Some ''/data/.openclaw/tools/m365/.token-cache.json''"
proof -
  have save: "saveCache (\<lambda>j. j) (TOKEN_CACHE_PATHS ''/app/.m365-token-cache.json'') ''{}''
                fallback_only
              = Inr (fallback_only(''/app/.m365-token-cache.json'' \<mapsto> File ''{}''))"
    by (simp add: saveCache_def TOKEN_CACHE_PATHS_def writeFileSync_def fallback_only_def)
  have find: "findTokenCache (TOKEN_CACHE_PATHS ''/app/.m365-token-cache.json'') fallback_only
              = Some ''/data/.openclaw/tools/m365/.token-cache.json''"
    by (simp add: findTokenCache_def TOKEN_CACHE_PATHS_def fallback_only_def existsSync_def)
  from store_writes_replace_one_file
    [of "\<lambda>j. j" "TOKEN_CACHE_PATHS ''/app/.m365-token-cache.json''" "''{}''" fallback_only
        "fallback_only(''/app/.m365-token-cache.json'' \<mapsto> File ''{}'')"
        refreshing_library 0 "Inr ''AT2''"
        "fallback_only(''/data/.openclaw/tools/m365/.token-cache.json'' \<mapsto> File ''refreshed'')"
        1]
    save refreshing_run find
  show ?thesis by simp
qed

section \<open>Absent and unreadable stores (\<^verbatim>\<open>m365-cli.js\<close>)\<close>

lemma loadCache_never_throws: "\<exists>r. loadCache parse paths fs = Inr r"
  by (auto simp: loadCache_def split: option.splits sum.splits)

lemma loadCache_corrupt_is_null:
  assumes "findTokenCache paths fs = Some p"
    and "readFileSync fs p = Inl e \<or> (\<exists>text. readFileSync fs p = Inr text \<and> parse text = None)"
  shows "loadCache parse paths fs = Inr None"
  using assms by (auto simp: loadCache_def loadCache_try_def)

lemma getAccessToken_absent:
  assumes "\<forall>p \<in> set paths. \<not> existsSync fs p"
  shows "getAccessToken lib paths (fs, net)
         = (Inl (Error ''No token cache found. Run: node msal-auth.mjs''), fs, net)"
proof (cases "findTokenCache paths fs")
  case None
  then show ?thesis by (simp add: getAccessToken_def)
next
  case (Some p)
  have "p \<in> set paths"
  proof (cases "first_existing fs paths")
    case None
    with Some show ?thesis
      by (cases paths) (simp_all add: findTokenCache_def)
  next
    case (Some q)
    with \<open>findTokenCache paths fs = Some p\<close> have "q = p"
      by (simp add: findTokenCache_def)
    with Some obtain i where "i < length paths" "paths ! i = p"
      using first_existing_Some [of fs paths q] by blast
    then show ?thesis by (metis nth_mem)
  qed
  with assms Some show ?thesis by (simp add: getAccessToken_def)
qed

text \<open>
  Claim C4 at the failing input. The local cache file exists but cannot be read. The
  unguarded \<^verbatim>\<open>readFileSync\<close> of \<^verbatim>\<open>getAccessToken\<close> throws, and the filesystem error
  leaves the function as it is, whatever the library would do: the error is not the
  ``No token cache found. Run: node msal-auth.mjs'' error, while \<^verbatim>\<open>loadCache\<close> on the
  same filesystem returns \<^verbatim>\<open>null\<close>.
\<close>

theorem unreadable_store_raw_error:
  "getAccessToken lib (TOKEN_CACHE_PATHS ''/app/.m365-token-cache.json'') (unreadable_local, net)
     = (Inl (FsError EACCES), unreadable_local, net)
   \<and> message (FsError EACCES) = ''EACCES: permission denied''
   \<and> loadCache parse (TOKEN_CACHE_PATHS ''/app/.m365-token-cache.json'') unreadable_local
     = Inr None"
  by (simp add: getAccessToken_def loadCache_def loadCache_try_def findTokenCache_def
        TOKEN_CACHE_PATHS_def unreadable_local_def existsSync_def readFileSync_def)


section \<open>One pass of the polling loop\<close>

lemma timer_delay_pos: "0 < timer_delay ms"
  by (simp add: timer_delay_def)

lemma saveTokenCache_Inr:
  assumes "saveTokenCache c tokens w = Inr w1"
  shows "w1 = w\<lparr>files := (files w)(TOKEN_CACHE_PATH c \<mapsto> File (token_cache c tokens (clock w)))\<rparr>"
  using assms
  by (auto simp: saveTokenCache_def writeFileSync_def split: option.splits node.splits sum.splits)

lemma showUserInfo_shape:
  "\<exists>f. showUserInfo c prov a w = (fetch (profileEndpoint prov) (profile_request a) w)\<lparr>files := f\<rparr>
     \<and> (f = files w
         \<or> (\<exists>u cache doc. profileEndpoint prov = Response (latency (profileEndpoint prov)) True (Some u)
               \<and> files w (TOKEN_CACHE_PATH c) = Some (File cache)
               \<and> enrich u cache = Inr (Some doc)
               \<and> f = (files w)(TOKEN_CACHE_PATH c \<mapsto> File doc)))"
proof (cases "profileEndpoint prov")
  case (Rejected ms)
  then show ?thesis
    by (intro exI [of _ "files w"]) (simp add: showUserInfo_def showUserInfo_try_def Let_def fetch_def)
next
  case (Response ms ok body)
  show ?thesis
  proof (cases "ok \<and> body \<noteq> None \<and> (\<exists>cache. files w (TOKEN_CACHE_PATH c) = Some (File cache))")
    case False
    with Response show ?thesis
      by (intro exI [of _ "files w"])
         (auto simp: showUserInfo_def showUserInfo_try_def Let_def fetch_def existsSync_def readFileSync_def
               split: option.splits node.splits)
  next
    case True
    then obtain u cache where u: "ok" "body = Some u"
      and cache: "files w (TOKEN_CACHE_PATH c) = Some (File cache)" by auto
    show ?thesis
    proof (cases "enrich u cache")
      case (Inl e)
      with Response u cache show ?thesis
        by (intro exI [of _ "files w"])
           (simp add: showUserInfo_def showUserInfo_try_def Let_def fetch_def existsSync_def readFileSync_def)
    next
      case (Inr r)
      show ?thesis
      proof (cases r)
        case None
        with Inr Response u cache show ?thesis
          by (intro exI [of _ "files w"])
             (simp add: showUserInfo_def showUserInfo_try_def Let_def fetch_def existsSync_def readFileSync_def)
      next
        case (Some doc)
        with Inr Response u cache show ?thesis
          by (intro exI [of _ "(files w)(TOKEN_CACHE_PATH c \<mapsto> File doc)"])
             (simp add: showUserInfo_def showUserInfo_try_def Let_def fetch_def existsSync_def
                readFileSync_def writeFileSync_def)
      qed
    qed
  qed
qed

lemma on_token_result_Continue:
  assumes "on_token_result c prov tr w = Continue w'"
  shows "w' = w \<or> w' = sleep 5000 w"
  using assms
  by (auto simp: on_token_result_def on_success_def split: if_splits sum.splits)

lemma on_success_Done:
  assumes "on_success c prov tr w = Done out w'"
  shows "polls w' = polls w
       \<and> (requests w' = requests w \<or> requests w' = requests w @ [(clock w, profile_request (access_token tr))])"
proof (cases "saveTokenCache c tr w")
  case (Inl e)
  with assms show ?thesis by (simp add: on_success_def)
next
  case (Inr w1)
  with assms have w': "w' = showUserInfo c prov (access_token tr) w1"
    by (simp add: on_success_def)
  from saveTokenCache_Inr [OF Inr] have "polls w1 = polls w" "requests w1 = requests w" "clock w1 = clock w"
    by simp_all
  moreover from showUserInfo_shape [of c prov "access_token tr" w1] w'
  have "polls w' = polls w1" "requests w' = requests w1 @ [(clock w1, profile_request (access_token tr))]"
    by (auto simp: fetch_def)
  ultimately show ?thesis by simp
qed

lemma on_token_result_Done:
  assumes "on_token_result c prov tr w = Done out w'"
  shows "polls w' = polls w
       \<and> (requests w' = requests w \<or> requests w' = requests w @ [(clock w, profile_request (access_token tr))])"
proof (cases "truthy (error tr)")
  case True
  with assms show ?thesis
    by (auto simp: on_token_result_def split: if_splits)
next
  case False
  with assms have "on_success c prov tr w = Done out w'"
    by (simp add: on_token_result_def)
  then show ?thesis by (rule on_success_Done)
qed

lemma poll_body_Continue:
  assumes "poll_body c prov dc pollInterval w = Continue w'"
  shows "files w' = files w \<and> polls w' = Suc (polls w)
       \<and> requests w' = requests w @ [(clock w + timer_delay pollInterval, token_request c dc)]
       \<and> clock w + timer_delay pollInterval \<le> clock w'"
proof -
  define w2 where "w2 = (fetch (tokenEndpoint prov (polls w)) (token_request c dc)
                           (sleep pollInterval w))\<lparr>polls := Suc (polls w)\<rparr>"
  from assms obtain tr where "on_token_result c prov tr w2 = Continue w'"
    by (auto simp: poll_body_def Let_def w2_def split: http_outcome.splits option.splits)
  then have "w' = w2 \<or> w' = sleep 5000 w2"
    by (rule on_token_result_Continue)
  then show ?thesis
    by (auto simp: w2_def fetch_def sleep_def timer_delay_def)
qed

lemma poll_body_Done:
  assumes "poll_body c prov dc pollInterval w = Done out w'"
  shows "polls w' = Suc (polls w)
       \<and> (\<exists>more. requests w' = requests w @ (clock w + timer_delay pollInterval, token_request c dc) # more
            \<and> (\<forall>(t, r) \<in> set more. clock w + timer_delay pollInterval \<le> t \<and> r \<noteq> token_request c dc))"
proof -
  define w2 where "w2 = (fetch (tokenEndpoint prov (polls w)) (token_request c dc)
                           (sleep pollInterval w))\<lparr>polls := Suc (polls w)\<rparr>"
  have w2: "polls w2 = Suc (polls w)"
    "requests w2 = requests w @ [(clock w + timer_delay pollInterval, token_request c dc)]"
    "clock w + timer_delay pollInterval \<le> clock w2"
    by (simp_all add: w2_def fetch_def sleep_def)
  have neq: "profile_request a \<noteq> token_request c dc" for a
    by (simp add: profile_request_def token_request_def)
  from assms have "w' = w2 \<or> (\<exists>tr. on_token_result c prov tr w2 = Done out w')"
    by (auto simp: poll_body_def Let_def w2_def split: http_outcome.splits option.splits)
  then show ?thesis
  proof
    assume "w' = w2"
    with w2 show ?thesis by simp
  next
    assume "\<exists>tr. on_token_result c prov tr w2 = Done out w'"
    then obtain tr where "on_token_result c prov tr w2 = Done out w'" ..
    from on_token_result_Done [OF this] w2 neq show ?thesis by auto
  qed
qed

lemma pollLoop_past_deadline:
  "\<not> js_less (clock w) expiresAt \<Longrightarrow> pollLoop c prov dc pollInterval expiresAt w = (TimedOut, w)"
  by (simp add: pollLoop.simps)

lemma pollLoop_polls:
  "pollLoop c prov dc pollInterval expiresAt w = (out, w') \<Longrightarrow>
     polls w \<le> polls w'
     \<and> int (polls w' - polls w) * timer_delay pollInterval
         < max 0 ((case expiresAt of None \<Rightarrow> 0 | Some t \<Rightarrow> t) - clock w) + timer_delay pollInterval"
proof (induction c prov dc pollInterval expiresAt w rule: pollLoop.induct)
  case (1 c prov dc pollInterval expiresAt w)
  let ?d = "timer_delay pollInterval"
  let ?E = "case expiresAt of None \<Rightarrow> 0 | Some t \<Rightarrow> t"
  have d: "0 < ?d" by (rule timer_delay_pos)
  show ?case
  proof (cases "js_less (clock w) expiresAt")
    case False
    with "1.prems" have "w' = w" by (simp add: pollLoop.simps)
    with d show ?thesis by simp
  next
    case True
    then have lt: "clock w < ?E" by (auto simp: js_less_def split: option.splits)
    show ?thesis
    proof (cases "poll_body c prov dc pollInterval w")
      case (Done out1 w1)
      with True "1.prems" have "w' = w1" by (simp add: pollLoop.simps)
      with poll_body_Done [OF Done] have "polls w' = Suc (polls w)" by simp
      with lt d show ?thesis by simp
    next
      case (Continue w1)
      with True "1.prems" have "pollLoop c prov dc pollInterval expiresAt w1 = (out, w')"
        by (simp add: pollLoop.simps)
      from "1.IH" [OF True Continue this]
      have ih: "polls w1 \<le> polls w'"
        "int (polls w' - polls w1) * ?d < max 0 (?E - clock w1) + ?d" by blast+
      from poll_body_Continue [OF Continue]
      have w1: "polls w1 = Suc (polls w)" "clock w + ?d \<le> clock w1" by simp_all
      from ih(1) w1(1) have eq: "polls w' - polls w = Suc (polls w' - polls w1)" by simp
      have step: "int (polls w' - polls w) * ?d = int (polls w' - polls w1) * ?d + ?d"
        by (simp add: eq algebra_simps)
      have "int (polls w' - polls w) * ?d < max 0 (?E - clock w) + ?d"
      proof (cases "clock w1 < ?E")
        case True
        with ih(2) w1(2) have "int (polls w' - polls w1) * ?d < ?E - clock w" by simp
        with step lt show ?thesis by simp
      next
        case False
        with ih(2) have "int (polls w' - polls w1) * ?d < 1 * ?d" by simp
        with d have "int (polls w' - polls w1) < 1" by (simp only: mult_less_cancel_right_pos)
        then have "polls w' - polls w1 = 0" by simp
        with step have e: "int (polls w' - polls w) * ?d = ?d" by simp
        show ?thesis unfolding e using lt by simp
      qed
      with ih(1) w1(1) show ?thesis by simp
    qed
  qed
qed

lemma pollLoop_requests:
  "pollLoop c prov dc pollInterval expiresAt w = (out, w') \<Longrightarrow>
     \<exists>new. requests w' = requests w @ new
       \<and> (\<forall>(t, r) \<in> set new. clock w \<le> t
            \<and> (r = token_request c dc \<longrightarrow>
                 clock w + timer_delay pollInterval \<le> t
                 \<and> js_less (t - timer_delay pollInterval) expiresAt))"
proof (induction c prov dc pollInterval expiresAt w rule: pollLoop.induct)
  case (1 c prov dc pollInterval expiresAt w)
  let ?d = "timer_delay pollInterval"
  have d: "0 < ?d" by (rule timer_delay_pos)
  show ?case
  proof (cases "js_less (clock w) expiresAt")
    case False
    with "1.prems" have "w' = w" by (simp add: pollLoop.simps)
    then show ?thesis by simp
  next
    case True
    show ?thesis
    proof (cases "poll_body c prov dc pollInterval w")
      case (Done out1 w1)
      with True "1.prems" have "w' = w1" by (simp add: pollLoop.simps)
      with poll_body_Done [OF Done] obtain more where
        more: "requests w' = requests w @ (clock w + ?d, token_request c dc) # more"
        "\<forall>(t, r) \<in> set more. clock w + ?d \<le> t \<and> r \<noteq> token_request c dc" by auto
      from more(2) d True
      have "\<forall>(t, r) \<in> set ((clock w + ?d, token_request c dc) # more). clock w \<le> t
            \<and> (r = token_request c dc \<longrightarrow> clock w + ?d \<le> t \<and> js_less (t - ?d) expiresAt)"
        by auto
      with more(1) show ?thesis by blast
    next
      case (Continue w1)
      with True "1.prems" have "pollLoop c prov dc pollInterval expiresAt w1 = (out, w')"
        by (simp add: pollLoop.simps)
      from "1.IH" [OF True Continue this] obtain new where
        new: "requests w' = requests w1 @ new"
        "\<forall>(t, r) \<in> set new. clock w1 \<le> t
            \<and> (r = token_request c dc \<longrightarrow> clock w1 + ?d \<le> t \<and> js_less (t - ?d) expiresAt)"
        by blast
      from poll_body_Continue [OF Continue]
      have w1: "requests w1 = requests w @ [(clock w + ?d, token_request c dc)]"
        "clock w + ?d \<le> clock w1" by simp_all
      from new(2) w1(2) d True
      have "\<forall>(t, r) \<in> set ((clock w + ?d, token_request c dc) # new). clock w \<le> t
            \<and> (r = token_request c dc \<longrightarrow> clock w + ?d \<le> t \<and> js_less (t - ?d) expiresAt)"
        by fastforce
      moreover from new(1) w1(1)
      have "requests w' = requests w @ (clock w + ?d, token_request c dc) # new" by simp
      ultimately show ?thesis by blast
    qed
  qed
qed


lemma late_grant_run:
  "initiateDeviceCodeFlow no_secret late_grant start =
     (Succeeded,
      \<lparr>files = Map.empty(''/app/.m365-token-cache.json''
                 \<mapsto> File (token_cache no_secret granted 15000)),
       clock = 15000, polls = 3,
       requests = [(0, device_code_request no_secret),
                   (5000, token_request no_secret short_code),
                   (10000, token_request no_secret short_code),
                   (15000, token_request no_secret short_code),
                   (15000, profile_request (Some ''AT''))]\<rparr>)"
  by (simp add: initiateDeviceCodeFlow_def no_secret_def late_grant_def start_def truthy_def
        fetch_def Let_def poll_interval_def expires_at_def short_code_def pollLoop.simps
        js_less_def poll_body_def sleep_def timer_delay_def on_token_result_def pending_def
        granted_def on_success_def saveTokenCache_def writeFileSync_def showUserInfo_def
        showUserInfo_try_def)

lemma never_granting_run:
  "initiateDeviceCodeFlow no_secret never_granting start =
     (TimedOut,
      \<lparr>files = Map.empty, clock = 15000, polls = 3,
       requests = [(0, device_code_request no_secret),
                   (5000, token_request no_secret short_code),
                   (10000, token_request no_secret short_code),
                   (15000, token_request no_secret short_code)]\<rparr>)"
  by (simp add: initiateDeviceCodeFlow_def no_secret_def never_granting_def start_def truthy_def
        fetch_def Let_def poll_interval_def expires_at_def short_code_def pollLoop.simps
        js_less_def poll_body_def sleep_def timer_delay_def on_token_result_def pending_def)

section \<open>The environment check of the device-code script\<close>

text \<open>
  Claim C5, as stated, at a concrete input. The client secret is missing; the script
  does not fail: it issues the device-code request and three token requests and ends
  successfully.
\<close>

theorem missing_secret_reaches_network_counterexample:
  "CLIENT_SECRET no_secret = None
   \<and> fst (initiateDeviceCodeFlow no_secret late_grant start) = Succeeded
   \<and> length (requests (snd (initiateDeviceCodeFlow no_secret late_grant start))) = 5"
  by (simp add: late_grant_run) (simp add: no_secret_def)

text \<open>
  Claim C5, amended. When the tenant id or the client id is missing (unset or empty),
  the device-code script ends with exit code 1 and the world is untouched: no request
  has been issued. The client secret is not part of the check.
\<close>

theorem missing_tenant_or_client_exits_before_network:
  assumes "\<not> truthy (TENANT_ID c) \<or> \<not> truthy (CLIENT_ID c)"
  shows "initiateDeviceCodeFlow c prov w = (MissingEnvironment, w)
         \<and> exit_code MissingEnvironment = 1"
  using assms by (simp add: initiateDeviceCodeFlow_def)

theorem missing_tenant_or_client_exits_before_network_witness:
  "\<not> truthy (TENANT_ID no_tenant)
   \<and> initiateDeviceCodeFlow no_tenant late_grant start = (MissingEnvironment, start)
   \<and> requests (snd (initiateDeviceCodeFlow no_tenant late_grant start)) = []"
proof -
  have h: "\<not> truthy (TENANT_ID no_tenant) \<or> \<not> truthy (CLIENT_ID no_tenant)"
    by (simp add: no_tenant_def truthy_def)
  have t: "\<not> truthy (TENANT_ID no_tenant)"
    by (simp add: no_tenant_def truthy_def)
  from missing_tenant_or_client_exits_before_network [OF h, of late_grant start] t
  show ?thesis by (simp add: start_def)
qed

section \<open>The deadline of the polling loop\<close>

text \<open>
  Claim C6, as stated, at a concrete input. The code is valid for 12 seconds and polled
  every 5 seconds, so the deadline is at 12000 ms. The third pass starts at 10000 ms,
  before the deadline, and sleeps until 15000 ms. If the provider grants then, the run
  succeeds after the deadline; if the user never authorises, the run times out at
  15000 ms, so that the wait was longer than the validity of the code.
\<close>

theorem poll_past_deadline_counterexample:
  "expires_at short_code start = Some 12000
   \<and> fst (initiateDeviceCodeFlow no_secret late_grant start) = Succeeded
   \<and> clock (snd (initiateDeviceCodeFlow no_secret late_grant start)) = 15000
   \<and> fst (initiateDeviceCodeFlow no_secret never_granting start) = TimedOut
   \<and> clock (snd (initiateDeviceCodeFlow no_secret never_granting start)) = 15000"
  by (simp add: late_grant_run never_granting_run)
     (simp add: expires_at_def short_code_def start_def)

text \<open>
  Claim C6, amended. The deadline is tested at the start of each pass of the loop only.
  A pass does not start once the clock has reached the deadline (or the deadline is
  \<^verbatim>\<open>NaN\<close>): the run then ends timed out, with exit code 1. A pass that has started
  runs to its end. Hence every token request is issued exactly one sleep after a loop
  test that passed, and the number \<open>n\<close> of token requests of a run satisfies
  \<open>n * delay < remaining + delay\<close>, where \<open>remaining\<close> is the time left until the
  deadline when the loop is entered. The loop terminates for every provider: it is
  the total function \<open>pollLoop\<close>, whose recursion decreases the time left.
\<close>

theorem poll_loop_deadline_per_pass:
  "(\<not> js_less (clock w) expiresAt \<longrightarrow>
      pollLoop c prov dc pollInterval expiresAt w = (TimedOut, w) \<and> exit_code TimedOut = 1)
   \<and> (pollLoop c prov dc pollInterval expiresAt w = (out, w') \<longrightarrow>
        int (polls w' - polls w) * timer_delay pollInterval
          < max 0 ((case expiresAt of None \<Rightarrow> 0 | Some t \<Rightarrow> t) - clock w)
            + timer_delay pollInterval
        \<and> (\<forall>(t, r) \<in> set (drop (length (requests w)) (requests w')).
              r = token_request c dc \<longrightarrow> js_less (t - timer_delay pollInterval) expiresAt))"
proof (intro conjI impI)
  assume "\<not> js_less (clock w) expiresAt"
  then show "pollLoop c prov dc pollInterval expiresAt w = (TimedOut, w)"
    by (rule pollLoop_past_deadline)
next
  show "exit_code TimedOut = 1" by simp
next
  assume run: "pollLoop c prov dc pollInterval expiresAt w = (out, w')"
  from pollLoop_polls [OF run]
  show "int (polls w' - polls w) * timer_delay pollInterval
          < max 0 ((case expiresAt of None \<Rightarrow> 0 | Some t \<Rightarrow> t) - clock w)
            + timer_delay pollInterval"
    by blast
next
  assume run: "pollLoop c prov dc pollInterval expiresAt w = (out, w')"
  from pollLoop_requests [OF run] obtain new where
    new: "requests w' = requests w @ new"
    "\<forall>(t, r) \<in> set new. clock w \<le> t
        \<and> (r = token_request c dc \<longrightarrow>
             clock w + timer_delay pollInterval \<le> t
             \<and> js_less (t - timer_delay pollInterval) expiresAt)"
    by blast
  from new(1) have "drop (length (requests w)) (requests w') = new" by simp
  with new(2)
  show "\<forall>(t, r) \<in> set (drop (length (requests w)) (requests w')).
          r = token_request c dc \<longrightarrow> js_less (t - timer_delay pollInterval) expiresAt"
    by auto
qed

lemma never_granting_loop:
  "pollLoop no_secret never_granting short_code 5000 (Some 12000) start =
     (TimedOut,
      \<lparr>files = Map.empty, clock = 15000, polls = 3,
       requests = [(5000, token_request no_secret short_code),
                   (10000, token_request no_secret short_code),
                   (15000, token_request no_secret short_code)]\<rparr>)"
  by (simp add: never_granting_def start_def fetch_def Let_def pollLoop.simps
        js_less_def poll_body_def sleep_def timer_delay_def on_token_result_def pending_def
        truthy_def)

theorem poll_loop_deadline_per_pass_witness:
  "pollLoop no_secret never_granting short_code 5000 (Some 12000) start
     = (TimedOut, \<lparr>files = Map.empty, clock = 15000, polls = 3,
          requests = [(5000, token_request no_secret short_code),
                      (10000, token_request no_secret short_code),
                      (15000, token_request no_secret short_code)]\<rparr>)
   \<and> int (3 - polls start) * timer_delay 5000 < max 0 (12000 - clock start) + timer_delay 5000
   \<and> \<not> js_less (clock (start\<lparr>clock := 12000\<rparr>)) (Some 12000)
   \<and> pollLoop no_secret never_granting short_code 5000 (Some 12000) (start\<lparr>clock := 12000\<rparr>)
     = (TimedOut, start\<lparr>clock := 12000\<rparr>)"
proof -
  have past: "\<not> js_less (clock (start\<lparr>clock := 12000\<rparr>)) (Some 12000)"
    by (simp add: js_less_def)
  from poll_loop_deadline_per_pass
    [of "start\<lparr>clock := 12000\<rparr>" "Some 12000" no_secret never_granting short_code 5000]
    past
  have "pollLoop no_secret never_granting short_code 5000 (Some 12000) (start\<lparr>clock := 12000\<rparr>)
        = (TimedOut, start\<lparr>clock := 12000\<rparr>)"
    by blast
  moreover
  from poll_loop_deadline_per_pass
    [of start "Some 12000" no_secret never_granting short_code 5000 TimedOut
        "\<lparr>files = Map.empty, clock = 15000, polls = 3,
          requests = [(5000, token_request no_secret short_code),
                      (10000, token_request no_secret short_code),
                      (15000, token_request no_secret short_code)]\<rparr>"]
    never_granting_loop
  have "int (3 - polls start) * timer_delay 5000 < max 0 (12000 - clock start) + timer_delay 5000"
    by simp
  ultimately show ?thesis
    using never_granting_loop past by simp
qed


section \<open>The \<^verbatim>\<open>slow_down\<close> response\<close>

text \<open>
  Claim C7. When a token request is answered with \<^verbatim>\<open>slow_down\<close>, the pass ends in
  \<open>Continue\<close>: the script stays in the polling loop, with the files untouched and the
  clock 5000 ms after the arrival of the response. The loop goes on from there, and
  every request issued later is issued at least 5000 ms after that response; a token
  request at least 5000 ms plus the regular delay after it.
\<close>

theorem slow_down_keeps_polling_and_waits:
  assumes "tokenEndpoint prov (polls w) = Response ms ok (Some tokenResult)"
    and "error tokenResult = Some ''slow_down''"
    and "js_less (clock w) expiresAt"
  shows "\<exists>w'. poll_body c prov dc pollInterval w = Continue w'
           \<and> files w' = files w
           \<and> clock w' = (clock w + timer_delay pollInterval + int ms) + 5000
           \<and> pollLoop c prov dc pollInterval expiresAt w
               = pollLoop c prov dc pollInterval expiresAt w'
           \<and> (\<forall>(t, r) \<in> set (drop (length (requests w'))
                    (requests (snd (pollLoop c prov dc pollInterval expiresAt w')))).
                 (clock w + timer_delay pollInterval + int ms) + 5000 \<le> t
                 \<and> (r = token_request c dc \<longrightarrow>
                      (clock w + timer_delay pollInterval + int ms) + 5000
                        + timer_delay pollInterval \<le> t))"
proof -
  define w2 where "w2 = (fetch (tokenEndpoint prov (polls w)) (token_request c dc)
                           (sleep pollInterval w))\<lparr>polls := Suc (polls w)\<rparr>"
  define w' where "w' = sleep 5000 w2"
  from assms(2) have "on_token_result c prov tokenResult w2 = Continue w'"
    by (simp add: on_token_result_def truthy_def w'_def)
  with assms(1) have body: "poll_body c prov dc pollInterval w = Continue w'"
    by (simp add: poll_body_def Let_def w2_def)
  have files: "files w' = files w"
    by (simp add: w'_def w2_def sleep_def fetch_def)
  from assms(1) have clock: "clock w' = (clock w + timer_delay pollInterval + int ms) + 5000"
    by (simp add: w'_def w2_def sleep_def fetch_def timer_delay_def)
  from assms(3) body
  have loop: "pollLoop c prov dc pollInterval expiresAt w
              = pollLoop c prov dc pollInterval expiresAt w'"
    by (subst pollLoop.simps) simp
  obtain out w'' where run: "pollLoop c prov dc pollInterval expiresAt w' = (out, w'')"
    by (cases "pollLoop c prov dc pollInterval expiresAt w'") auto
  from pollLoop_requests [OF run] obtain new where
    new: "requests w'' = requests w' @ new"
    "\<forall>(t, r) \<in> set new. clock w' \<le> t
        \<and> (r = token_request c dc \<longrightarrow>
             clock w' + timer_delay pollInterval \<le> t
             \<and> js_less (t - timer_delay pollInterval) expiresAt)"
    by blast
  from new(1) run
  have "drop (length (requests w')) (requests (snd (pollLoop c prov dc pollInterval expiresAt w')))
        = new"
    by simp
  with new(2) clock
  have later: "\<forall>(t, r) \<in> set (drop (length (requests w'))
                    (requests (snd (pollLoop c prov dc pollInterval expiresAt w')))).
                 (clock w + timer_delay pollInterval + int ms) + 5000 \<le> t
                 \<and> (r = token_request c dc \<longrightarrow>
                      (clock w + timer_delay pollInterval + int ms) + 5000
                        + timer_delay pollInterval \<le> t)"
    by auto
  from body files clock loop later show ?thesis by blast
qed

lemma slowing_loop:
  "pollLoop no_secret slowing short_code 5000 (Some 900000) start =
     (Succeeded,
      \<lparr>files = Map.empty(''/app/.m365-token-cache.json''
                 \<mapsto> File (token_cache no_secret granted 15400)),
       clock = 15500, polls = 2,
       requests = [(5000, token_request no_secret short_code),
                   (15200, token_request no_secret short_code),
                   (15400, profile_request (Some ''AT''))]\<rparr>)"
  by (simp add: slowing_def start_def fetch_def Let_def pollLoop.simps
        js_less_def poll_body_def sleep_def timer_delay_def on_token_result_def slowed_def
        granted_def truthy_def on_success_def saveTokenCache_def writeFileSync_def
        showUserInfo_def showUserInfo_try_def no_secret_def)

theorem slow_down_keeps_polling_and_waits_witness:
  "tokenEndpoint slowing (polls start) = Response 200 True (Some slowed)
   \<and> error slowed = Some ''slow_down''
   \<and> js_less (clock start) (Some 900000)
   \<and> poll_body no_secret slowing short_code 5000 start
      = Continue \<lparr>files = Map.empty, clock = 10200, polls = 1,
                  requests = [(5000, token_request no_secret short_code)]\<rparr>
   \<and> (\<exists>w'. poll_body no_secret slowing short_code 5000 start = Continue w'
          \<and> clock w' = (clock start + timer_delay 5000 + int 200) + 5000)
   \<and> map fst (requests (snd (pollLoop no_secret slowing short_code 5000 (Some 900000) start)))
      = [5000, 15200, 15400]"
proof -
  have h1: "tokenEndpoint slowing (polls start) = Response 200 True (Some slowed)"
    by (simp add: slowing_def start_def)
  have h2: "error slowed = Some ''slow_down''"
    by (simp add: slowed_def)
  have h3: "js_less (clock start) (Some 900000)"
    by (simp add: js_less_def start_def)
  have body: "poll_body no_secret slowing short_code 5000 start
      = Continue \<lparr>files = Map.empty, clock = 10200, polls = 1,
                  requests = [(5000, token_request no_secret short_code)]\<rparr>"
    by (simp add: poll_body_def Let_def slowing_def start_def fetch_def sleep_def
          timer_delay_def on_token_result_def slowed_def truthy_def)
  from slow_down_keeps_polling_and_waits
    [OF h1 h2 h3, of no_secret short_code 5000]
  have "\<exists>w'. poll_body no_secret slowing short_code 5000 start = Continue w'
          \<and> clock w' = (clock start + timer_delay 5000 + int 200) + 5000"
    by blast
  moreover
  have "map fst (requests (snd (pollLoop no_secret slowing short_code 5000 (Some 900000) start)))
        = [5000, 15200, 15400]"
    by (simp add: slowing_loop)
  ultimately show ?thesis
    using h1 h2 h3 body by blast
qed



section \<open>Decimal strings\<close>

lemma digit_value_digit: "d < 10 \<Longrightarrow> digit_value (digit d) = Some d"
  by (simp add: digit_value_def digit_def Let_def)

lemma digit_not_minus: "d < 10 \<Longrightarrow> digit d \<noteq> CHR ''-''"
proof
  assume d: "d < 10" and "digit d = CHR ''-''"
  then have "(of_char (digit d) :: nat) = of_char (CHR ''-'')" by simp
  with d show False by (simp add: digit_def)
qed

lemma digits_not_Nil: "digits n \<noteq> []"
  by (subst digits.simps) simp

lemma digits_first: "digits n = c # cs \<Longrightarrow> c \<noteq> CHR ''-''"
proof (induction n arbitrary: c cs rule: digits.induct)
  case (1 n)
  show ?case
  proof (cases "n < 10")
    case True
    with "1.prems" have "c = digit n" by (subst (asm) digits.simps) simp
    with True show ?thesis by (simp add: digit_not_minus)
  next
    case False
    obtain c' cs' where front: "digits (n div 10) = c' # cs'"
      using digits_not_Nil [of "n div 10"] by (cases "digits (n div 10)") auto
    from False "1.prems" have "digits (n div 10) @ [digit (n mod 10)] = c # cs"
      by (subst (asm) digits.simps) simp
    with front have "c = c'" by simp
    with "1.IH" [OF False front] show ?thesis by simp
  qed
qed

lemma read_digits_append:
  "xs \<noteq> [] \<Longrightarrow> read_digits acc (xs @ ys) =
     (case read_digits acc xs of None \<Rightarrow> None | Some a \<Rightarrow> read_digits (Some a) ys)"
proof (induction xs arbitrary: acc)
  case Nil
  then show ?case by simp
next
  case (Cons c cs)
  show ?case
  proof (cases "digit_value c")
    case None
    then show ?thesis by simp
  next
    case (Some d)
    show ?thesis
    proof (cases "cs = []")
      case True
      with Some show ?thesis by simp
    next
      case False
      from Cons.IH [OF False] Some show ?thesis by simp
    qed
  qed
qed

lemma read_digits_digits: "read_digits None (digits n) = Some n"
proof (induction n rule: digits.induct)
  case (1 n)
  show ?case
  proof (cases "n < 10")
    case True
    then have "digits n = [digit n]" by (subst digits.simps) simp
    with True show ?thesis by (simp add: digit_value_digit)
  next
    case False
    then have "digits n = digits (n div 10) @ [digit (n mod 10)]"
      by (subst digits.simps) simp
    moreover have "digit_value (digit (n mod 10)) = Some (n mod 10)"
      by (simp add: digit_value_digit)
    ultimately show ?thesis
      using "1.IH" [OF False] by (simp add: read_digits_append digits_not_Nil)
  qed
qed

lemma Number_toString: "Number (toString (Some i)) = Some i"
proof (cases "i < 0")
  case True
  then show ?thesis
    by (simp add: toString_def Number_def read_digits_digits)
next
  case False
  obtain c cs where front: "digits (nat i) = c # cs"
    using digits_not_Nil [of "nat i"] by (cases "digits (nat i)") auto
  from digits_first [OF front] have "c \<noteq> CHR ''-''" .
  moreover from front have "read_digits None (c # cs) = Some (nat i)"
    using read_digits_digits [of "nat i"] by simp
  ultimately show ?thesis
    using False front by (simp add: toString_def Number_def del: read_digits.simps)
qed


section \<open>Properties of the saved document\<close>

lemma get_prop_token_cache:
  "get_prop (token_cache c tokens ms) ''Account'' = Some (JObj [(account_key c, account_entry c)])"
  "get_prop (token_cache c tokens ms) ''AccessToken'' =
     Some (JObj [(access_token_key c,
                  access_token_entry c tokens (ms div 1000)
                    (map_option (\<lambda>e. ms div 1000 + e) (token_expires_in tokens)))])"
  "get_prop (token_cache c tokens ms) ''RefreshToken'' =
     Some (JObj (if truthy (refresh_token tokens)
                 then [(refresh_token_key c, refresh_token_entry c tokens)] else []))"
  "get_prop (token_cache c tokens ms) ''IdToken'' =
     Some (JObj (if truthy (id_token tokens)
                 then [(id_token_key c, id_token_entry c tokens)] else []))"
  "get_prop (token_cache c tokens ms) ''AppMetadata'' = Some (JObj [])"
  by (simp_all add: token_cache_def get_prop_def Let_def)

lemma account_key_not_empty: "account_key c \<noteq> []"
  by (simp add: account_key_def homeAccountId_def)

lemma map_of_opt_prop: "k \<noteq> k' \<Longrightarrow> map_of (opt_prop k' v) k = None"
  by (cases v) (simp_all add: opt_prop_def)

lemma access_token_entry_times:
  "number_prop (access_token_entry c tokens now expiresOn) ''cached_at'' = Some now"
  "number_prop (access_token_entry c tokens now (Some x)) ''expires_on'' = Some x"
  by (simp_all add: number_prop_def get_prop_def access_token_entry_def map_of_opt_prop
        map_add_def Number_toString)




lemma get_prop_update_account:
  "get_prop (JObj (update_account u props)) ''username''
     = map_option JStr (js_or (userPrincipalName u) (mail u))"
  "get_prop (JObj (update_account u props)) ''name'' = map_option JStr (displayName u)"
  by (auto simp: get_prop_def update_account_def set_prop_def update_conv' delete_conv'
        split: option.splits)

lemma enrich_token_cache:
  "\<exists>doc props. enrich u (token_cache c tokens ms) = Inr (Some doc)
     \<and> get_prop doc ''Account'' = Some (JObj [(account_key c, JObj (update_account u props))])
     \<and> (\<forall>k. k \<noteq> ''Account'' \<longrightarrow> get_prop doc k = get_prop (token_cache c tokens ms) k)"
proof -
  obtain maps where tc: "token_cache c tokens ms = JObj maps"
    by (simp add: token_cache_def Let_def)
  obtain props where props: "account_entry c = JObj props"
    by (simp add: account_entry_def)
  from get_prop_token_cache(1) [of c tokens ms] tc props
  have acc: "get_prop (JObj maps) ''Account'' = Some (JObj [(account_key c, JObj props)])"
    by simp
  let ?doc = "JObj (AList.update ''Account''
                (JObj [(account_key c, JObj (update_account u props))]) maps)"
  from acc have "enrich u (JObj maps) = Inr (Some ?doc)"
    by (simp add: enrich_def account_key_not_empty)
  moreover have "get_prop ?doc ''Account''
                 = Some (JObj [(account_key c, JObj (update_account u props))])"
    by (simp add: get_prop_def update_conv')
  moreover have "\<forall>k. k \<noteq> ''Account'' \<longrightarrow> get_prop ?doc k = get_prop (JObj maps) k"
    by (simp add: get_prop_def update_conv')
  ultimately show ?thesis
    unfolding tc by blast
qed

lemma maps_present_token_cache: "maps_present (token_cache c tokens ms)"
  by (simp add: maps_present_def top_level_maps_def get_prop_token_cache is_map_def)

lemma maps_present_same_maps:
  assumes "maps_present doc"
    and "\<forall>k. k \<noteq> ''Account'' \<longrightarrow> get_prop doc' k = get_prop doc k"
    and "is_map (get_prop doc' ''Account'')"
  shows "maps_present doc'"
  using assms by (simp add: maps_present_def top_level_maps_def)

lemma well_formed_token_cache:
  assumes "token_expires_in tokens = Some e" and "0 \<le> e"
  shows "well_formed (token_cache c tokens ms)"
proof -
  have "maps_present (token_cache c tokens ms)"
    by (rule maps_present_token_cache)
  moreover from assms have "list_all times_ordered (access_tokens (token_cache c tokens ms))"
    by (simp add: access_tokens_def get_prop_token_cache times_ordered_def
          access_token_entry_times)
  ultimately show ?thesis by (simp add: well_formed_def)
qed

lemma well_formed_same_maps:
  assumes "well_formed doc"
    and "\<forall>k. k \<noteq> ''Account'' \<longrightarrow> get_prop doc' k = get_prop doc k"
    and "is_map (get_prop doc' ''Account'')"
  shows "well_formed doc'"
proof -
  from assms(2) have "access_tokens doc' = access_tokens doc"
    by (simp add: access_tokens_def)
  moreover from assms have "maps_present doc'"
    by (auto simp: well_formed_def intro: maps_present_same_maps)
  ultimately show ?thesis using assms(1) by (simp add: well_formed_def)
qed

lemma expiry_token_cache:
  "\<forall>entry \<in> set (access_tokens (token_cache c tokens ms)).
     number_prop entry ''cached_at'' = Some (ms div 1000)
     \<and> (\<forall>e. token_expires_in tokens = Some e \<longrightarrow>
           number_prop entry ''expires_on'' = Some (ms div 1000 + e))"
  by (simp add: access_tokens_def get_prop_token_cache access_token_entry_times)

text \<open>What the file holds after the save and after the profile lookup that follows it.\<close>

lemma stored_after_success:
  assumes "saveTokenCache c tokens w = Inr w1"
  shows "files w1 (TOKEN_CACHE_PATH c) = Some (File (token_cache c tokens (clock w)))
       \<and> (files (showUserInfo c prov a w1) (TOKEN_CACHE_PATH c)
             = Some (File (token_cache c tokens (clock w)))
           \<or> (\<exists>u doc. profileEndpoint prov = Response (latency (profileEndpoint prov)) True (Some u)
                \<and> enrich u (token_cache c tokens (clock w)) = Inr (Some doc)
                \<and> files (showUserInfo c prov a w1) (TOKEN_CACHE_PATH c) = Some (File doc)))"
proof -
  from saveTokenCache_Inr [OF assms]
  have saved: "files w1 (TOKEN_CACHE_PATH c) = Some (File (token_cache c tokens (clock w)))"
    by simp
  from showUserInfo_shape [of c prov a w1] obtain f where
    f: "showUserInfo c prov a w1 = (fetch (profileEndpoint prov) (profile_request a) w1)\<lparr>files := f\<rparr>"
    "f = files w1
       \<or> (\<exists>u cache doc. profileEndpoint prov = Response (latency (profileEndpoint prov)) True (Some u)
             \<and> files w1 (TOKEN_CACHE_PATH c) = Some (File cache)
             \<and> enrich u cache = Inr (Some doc)
             \<and> f = (files w1)(TOKEN_CACHE_PATH c \<mapsto> File doc))"
    by blast
  from f(1) have final: "files (showUserInfo c prov a w1) = f" by simp
  from f(2) saved final show ?thesis by auto
qed


lemma expires_on_without_expiry:
  "get_prop (access_token_entry c tokens now None) ''expires_on'' = Some (JStr ''NaN'')"
  "number_prop (access_token_entry c tokens now None) ''expires_on'' = None"
  by (simp_all add: number_prop_def get_prop_def access_token_entry_def map_of_opt_prop
        map_add_def toString_def Number_def digit_value_def)

lemma account_entry_props:
  "get_prop (account_entry c) ''home_account_id'' = Some (JStr (homeAccountId c))"
  "get_prop (account_entry c) ''realm'' = map_option JStr (TENANT_ID c)"
  "get_prop (account_entry c) ''username'' = Some (JStr ''user@domain.com'')"
  by (simp_all add: get_prop_def account_entry_def map_of_opt_prop map_add_def opt_prop_def
        split: option.splits)

lemma access_token_entry_props:
  "get_prop (access_token_entry c tokens now expiresOn) ''secret''
     = map_option JStr (access_token tokens)"
  "get_prop (access_token_entry c tokens now expiresOn) ''client_id''
     = map_option JStr (CLIENT_ID c)"
  "get_prop (access_token_entry c tokens now expiresOn) ''target'' = Some (JStr SCOPES)"
  by (simp_all add: get_prop_def access_token_entry_def map_of_opt_prop map_add_def opt_prop_def
        split: option.splits)

lemma update_account_other:
  "k \<noteq> ''username'' \<Longrightarrow> k \<noteq> ''name''
     \<Longrightarrow> get_prop (JObj (update_account u props)) k = get_prop (JObj props) k"
  by (auto simp: get_prop_def update_account_def set_prop_def update_conv' delete_conv'
        split: option.splits)

lemma enrich_token_cache_account:
  "\<exists>doc props. enrich u (token_cache c tokens ms) = Inr (Some doc)
     \<and> account_entry c = JObj props
     \<and> get_prop doc ''Account'' = Some (JObj [(account_key c, JObj (update_account u props))])
     \<and> (\<forall>k. k \<noteq> ''Account'' \<longrightarrow> get_prop doc k = get_prop (token_cache c tokens ms) k)"
proof -
  obtain maps where tc: "token_cache c tokens ms = JObj maps"
    by (simp add: token_cache_def Let_def)
  obtain props where props: "account_entry c = JObj props"
    by (simp add: account_entry_def)
  from get_prop_token_cache(1) [of c tokens ms] tc props
  have acc: "get_prop (JObj maps) ''Account'' = Some (JObj [(account_key c, JObj props)])"
    by simp
  let ?doc = "JObj (AList.update ''Account''
                (JObj [(account_key c, JObj (update_account u props))]) maps)"
  from acc have "enrich u (JObj maps) = Inr (Some ?doc)"
    by (simp add: enrich_def account_key_not_empty)
  moreover have "get_prop ?doc ''Account''
                 = Some (JObj [(account_key c, JObj (update_account u props))])"
    by (simp add: get_prop_def update_conv')
  moreover have "\<forall>k. k \<noteq> ''Account'' \<longrightarrow> get_prop ?doc k = get_prop (JObj maps) k"
    by (simp add: get_prop_def update_conv')
  ultimately show ?thesis
    unfolding tc using props by blast
qed

text \<open>The profile lookup rewrites the file exactly when it is answered ok with a user.\<close>

lemma showUserInfo_enriches:
  assumes "profileEndpoint prov = Response ms True (Some u)"
    and "files w (TOKEN_CACHE_PATH c) = Some (File cache)"
    and "enrich u cache = Inr (Some doc)"
  shows "files (showUserInfo c prov a w) = (files w)(TOKEN_CACHE_PATH c \<mapsto> File doc)"
  using assms
  by (simp add: showUserInfo_def showUserInfo_try_def Let_def fetch_def existsSync_def
        readFileSync_def writeFileSync_def)

lemma showUserInfo_keeps_files:
  assumes "\<forall>ms u. profileEndpoint prov \<noteq> Response ms True (Some u)"
  shows "files (showUserInfo c prov a w) = files w"
proof (cases "profileEndpoint prov")
  case (Rejected ms)
  then show ?thesis
    by (simp add: showUserInfo_def showUserInfo_try_def Let_def fetch_def)
next
  case (Response ms ok body)
  with assms have "\<not> ok \<or> body = None" by (cases body) auto
  with Response show ?thesis
    by (auto simp: showUserInfo_def showUserInfo_try_def Let_def fetch_def)
qed

lemma no_expiry_run:
  "initiateDeviceCodeFlow no_secret grant_without_expiry start =
     (Succeeded,
      \<lparr>files = Map.empty(''/app/.m365-token-cache.json''
                 \<mapsto> File (token_cache no_secret granted_no_expiry 5000)),
       clock = 5000, polls = 1,
       requests = [(0, device_code_request no_secret),
                   (5000, token_request no_secret short_code),
                   (5000, profile_request (Some ''AT''))]\<rparr>)"
  by (simp add: initiateDeviceCodeFlow_def no_secret_def grant_without_expiry_def start_def
        truthy_def fetch_def Let_def poll_interval_def expires_at_def short_code_def
        pollLoop.simps js_less_def poll_body_def sleep_def timer_delay_def on_token_result_def
        granted_no_expiry_def on_success_def saveTokenCache_def writeFileSync_def
        showUserInfo_def showUserInfo_try_def)

section \<open>The documents written by the device-code script\<close>

text \<open>
  Claim C8, as stated, at a concrete input. The provider grants with a body that has no
  \<^verbatim>\<open>expires_in\<close> field. The script tests only \<^verbatim>\<open>tokenResult.error\<close>, saves the tokens
  and ends successfully; the access-token entry of the stored document has
  \<^verbatim>\<open>expires_on\<close> ``NaN'', so the document is not well-formed. With a negative
  \<^verbatim>\<open>expires_in\<close> the stored \<^verbatim>\<open>expires_on\<close> is below \<^verbatim>\<open>cached_at\<close>.
\<close>

theorem store_without_expires_in_counterexample:
  "fst (initiateDeviceCodeFlow no_secret grant_without_expiry start) = Succeeded
   \<and> files (snd (initiateDeviceCodeFlow no_secret grant_without_expiry start))
        ''/app/.m365-token-cache.json''
      = Some (File (token_cache no_secret granted_no_expiry 5000))
   \<and> access_tokens (token_cache no_secret granted_no_expiry 5000)
      = [access_token_entry no_secret granted_no_expiry 5 None]
   \<and> get_prop (access_token_entry no_secret granted_no_expiry 5 None) ''expires_on''
      = Some (JStr ''NaN'')
   \<and> \<not> well_formed (token_cache no_secret granted_no_expiry 5000)
   \<and> \<not> well_formed (token_cache no_secret (granted\<lparr>token_expires_in := Some (- 60)\<rparr>) 5000)"
proof -
  have tokens: "access_tokens (token_cache no_secret granted_no_expiry 5000)
                = [access_token_entry no_secret granted_no_expiry 5 None]"
    by (simp add: access_tokens_def get_prop_token_cache granted_no_expiry_def)
  have missing: "\<not> well_formed (token_cache no_secret granted_no_expiry 5000)"
    by (simp add: well_formed_def tokens times_ordered_def expires_on_without_expiry
          access_token_entry_times)
  have "access_tokens (token_cache no_secret (granted\<lparr>token_expires_in := Some (- 60)\<rparr>) 5000)
        = [access_token_entry no_secret (granted\<lparr>token_expires_in := Some (- 60)\<rparr>) 5
             (Some (- 55))]"
    by (simp add: access_tokens_def get_prop_token_cache)
  then have negative:
    "\<not> well_formed (token_cache no_secret (granted\<lparr>token_expires_in := Some (- 60)\<rparr>) 5000)"
    by (simp add: well_formed_def times_ordered_def access_token_entry_times)
  from tokens missing negative show ?thesis
    by (simp add: no_expiry_run expires_on_without_expiry)
qed

text \<open>
  Claim C8, amended. Every document the script writes, by \<^verbatim>\<open>saveTokenCache\<close> and by
  \<^verbatim>\<open>showUserInfo\<close> after it, has the five top-level maps, and \<^verbatim>\<open>showUserInfo\<close> leaves
  the access-token entries as saved. There is one access-token entry; when the response
  carries a non-negative \<^verbatim>\<open>expires_in\<close> and the times are safe integers, its
  \<open>cached_at\<close> is the time of the save in seconds, its \<open>expires_on\<close> is \<open>cached_at\<close> plus
  \<^verbatim>\<open>expires_in\<close>, and both documents are well-formed. The script does not check
  \<^verbatim>\<open>expires_in\<close>.
\<close>

theorem written_stores_maps_and_expiry:
  assumes "saveTokenCache c tokens w = Inr w1"
  shows "\<exists>saved final entry.
           files w1 (TOKEN_CACHE_PATH c) = Some (File saved)
         \<and> files (showUserInfo c prov a w1) (TOKEN_CACHE_PATH c) = Some (File final)
         \<and> maps_present saved \<and> maps_present final
         \<and> access_tokens saved = [entry] \<and> access_tokens final = [entry]
         \<and> (\<forall>e. token_expires_in tokens = Some e \<and> 0 \<le> e \<and> 0 \<le> clock w
                  \<and> safe_integer (clock w div 1000 + e) \<longrightarrow>
                number_prop entry ''cached_at'' = Some (clock w div 1000)
              \<and> number_prop entry ''expires_on'' = Some (clock w div 1000 + e)
              \<and> well_formed saved \<and> well_formed final)"
proof -
  let ?saved = "token_cache c tokens (clock w)"
  let ?entry = "access_token_entry c tokens (clock w div 1000)
                  (map_option (\<lambda>e. clock w div 1000 + e) (token_expires_in tokens))"
  have maps: "maps_present ?saved"
    by (rule maps_present_token_cache)
  have entry: "access_tokens ?saved = [?entry]"
    by (simp add: access_tokens_def get_prop_token_cache)
  have times: "token_expires_in tokens = Some e \<Longrightarrow>
      number_prop ?entry ''cached_at'' = Some (clock w div 1000)
      \<and> number_prop ?entry ''expires_on'' = Some (clock w div 1000 + e)" for e
    by (simp add: access_token_entry_times)
  have wf: "token_expires_in tokens = Some e \<Longrightarrow> 0 \<le> e \<Longrightarrow> well_formed ?saved" for e
    by (rule well_formed_token_cache)
  from stored_after_success [OF assms, of prov a]
  have saved: "files w1 (TOKEN_CACHE_PATH c) = Some (File ?saved)"
    and final: "files (showUserInfo c prov a w1) (TOKEN_CACHE_PATH c) = Some (File ?saved)
       \<or> (\<exists>u doc. enrich u ?saved = Inr (Some doc)
             \<and> files (showUserInfo c prov a w1) (TOKEN_CACHE_PATH c) = Some (File doc))"
    by blast+
  from final obtain doc where doc:
    "files (showUserInfo c prov a w1) (TOKEN_CACHE_PATH c) = Some (File doc)"
    "\<forall>k. k \<noteq> ''Account'' \<longrightarrow> get_prop doc k = get_prop ?saved k"
    "is_map (get_prop doc ''Account'')"
  proof
    assume "files (showUserInfo c prov a w1) (TOKEN_CACHE_PATH c) = Some (File ?saved)"
    then show ?thesis
      by (intro that [of ?saved]) (simp_all add: get_prop_token_cache is_map_def)
  next
    assume "\<exists>u doc. enrich u ?saved = Inr (Some doc)
              \<and> files (showUserInfo c prov a w1) (TOKEN_CACHE_PATH c) = Some (File doc)"
    then obtain u doc where ud: "enrich u ?saved = Inr (Some doc)"
      "files (showUserInfo c prov a w1) (TOKEN_CACHE_PATH c) = Some (File doc)" by blast
    from enrich_token_cache [of u c tokens "clock w"] ud(1) obtain props where
      "get_prop doc ''Account'' = Some (JObj [(account_key c, JObj (update_account u props))])"
      "\<forall>k. k \<noteq> ''Account'' \<longrightarrow> get_prop doc k = get_prop ?saved k"
      by auto
    with ud(2) show ?thesis
      by (intro that [of doc]) (simp_all add: is_map_def)
  qed
  from maps doc(2,3) have maps': "maps_present doc"
    by (rule maps_present_same_maps)
  from doc(2) have same: "access_tokens doc = access_tokens ?saved"
    by (simp add: access_tokens_def)
  have wf': "token_expires_in tokens = Some e \<Longrightarrow> 0 \<le> e \<Longrightarrow> well_formed doc" for e
    using wf [of e] doc(2,3) by (blast intro: well_formed_same_maps)
  have "\<forall>e. token_expires_in tokens = Some e \<and> 0 \<le> e \<and> 0 \<le> clock w
             \<and> safe_integer (clock w div 1000 + e) \<longrightarrow>
           number_prop ?entry ''cached_at'' = Some (clock w div 1000)
         \<and> number_prop ?entry ''expires_on'' = Some (clock w div 1000 + e)
         \<and> well_formed ?saved \<and> well_formed doc"
    using times wf wf' by blast
  with saved doc(1) maps maps' entry same show ?thesis
    by (metis (no_types, lifting))
qed

theorem written_stores_maps_and_expiry_witness:
  "saveTokenCache no_secret granted start
      = Inr (start\<lparr>files := Map.empty(''/app/.m365-token-cache.json''
                               \<mapsto> File (token_cache no_secret granted 0))\<rparr>)
   \<and> token_expires_in granted = Some 3600 \<and> (0::int) \<le> 3600 \<and> 0 \<le> clock start
   \<and> safe_integer (clock start div 1000 + 3600)
   \<and> (\<exists>saved final entry.
         files (start\<lparr>files := Map.empty(''/app/.m365-token-cache.json''
                               \<mapsto> File (token_cache no_secret granted 0))\<rparr>)
           (TOKEN_CACHE_PATH no_secret) = Some (File saved)
       \<and> files (showUserInfo no_secret late_grant (Some ''AT'')
                  (start\<lparr>files := Map.empty(''/app/.m365-token-cache.json''
                               \<mapsto> File (token_cache no_secret granted 0))\<rparr>))
           (TOKEN_CACHE_PATH no_secret) = Some (File final)
       \<and> maps_present saved \<and> maps_present final
       \<and> access_tokens saved = [entry] \<and> access_tokens final = [entry]
       \<and> number_prop entry ''cached_at'' = Some 0
       \<and> number_prop entry ''expires_on'' = Some 3600
       \<and> well_formed saved \<and> well_formed final)"
proof -
  have h: "saveTokenCache no_secret granted start
      = Inr (start\<lparr>files := Map.empty(''/app/.m365-token-cache.json''
                               \<mapsto> File (token_cache no_secret granted 0))\<rparr>)"
    by (simp add: saveTokenCache_def writeFileSync_def start_def no_secret_def)
  have e: "token_expires_in granted = Some 3600" "(0::int) \<le> 3600" "0 \<le> clock start"
    "safe_integer (clock start div 1000 + 3600)"
    by (simp_all add: granted_def start_def safe_integer_def)
  have c: "clock start div 1000 = 0" by (simp add: start_def)
  from written_stores_maps_and_expiry [OF h, of late_grant "Some ''AT''"] e
  have "\<exists>saved final entry.
         files (start\<lparr>files := Map.empty(''/app/.m365-token-cache.json''
                               \<mapsto> File (token_cache no_secret granted 0))\<rparr>)
           (TOKEN_CACHE_PATH no_secret) = Some (File saved)
       \<and> files (showUserInfo no_secret late_grant (Some ''AT'')
                  (start\<lparr>files := Map.empty(''/app/.m365-token-cache.json''
                               \<mapsto> File (token_cache no_secret granted 0))\<rparr>))
           (TOKEN_CACHE_PATH no_secret) = Some (File final)
       \<and> maps_present saved \<and> maps_present final
       \<and> access_tokens saved = [entry] \<and> access_tokens final = [entry]
       \<and> number_prop entry ''cached_at'' = Some 0
       \<and> number_prop entry ''expires_on'' = Some 3600
       \<and> well_formed saved \<and> well_formed final"
    unfolding c by (elim exE conjE) (rule exI, rule exI, rule exI, auto)
  with h e show ?thesis by blast
qed

section \<open>Success of the device-code flow\<close>

text \<open>
  Claim C9. A token request is answered without an error field while the cache file
  can be written. Then the pass first saves the complete document built from the
  response, replacing whatever the file held: one account entry (with the placeholder
  username), one access-token entry holding the new access token, the refresh-token and
  id-token entries as the response has them, and an empty \<open>AppMetadata\<close> map. Next it
  looks the profile up with the new access token. Whatever the profile endpoint does,
  the run ends \<open>Succeeded\<close>, with exit code 0. When the lookup is answered ok with a
  user, the file is rewritten with the account's \<^verbatim>\<open>username\<close> and \<^verbatim>\<open>name\<close> set from
  the profile and everything else as saved; in every other case (the request fails, the
  answer is not ok or not JSON) the files stay as saved.
\<close>

theorem success_saves_then_enriches_best_effort:
  assumes "tokenEndpoint prov (polls w) = Response ms ok (Some tokens)"
    and "\<not> truthy (error tokens)"
    and "js_less (clock w) expiresAt"
    and "\<forall>e. files w (TOKEN_CACHE_PATH c) \<noteq> Some (Blocked e)"
  shows "\<exists>w2 w3 saved account token.
           saveTokenCache c tokens w2 = Inr w3
         \<and> saved = token_cache c tokens (clock w2)
         \<and> files w3 = (files w)(TOKEN_CACHE_PATH c \<mapsto> File saved)
         \<and> get_prop saved ''Account'' = Some (JObj [(account_key c, account)])
         \<and> get_prop account ''home_account_id'' = Some (JStr (homeAccountId c))
         \<and> get_prop account ''realm'' = map_option JStr (TENANT_ID c)
         \<and> get_prop account ''username'' = Some (JStr ''user@domain.com'')
         \<and> get_prop saved ''AccessToken'' = Some (JObj [(access_token_key c, token)])
         \<and> get_prop token ''secret'' = map_option JStr (access_token tokens)
         \<and> get_prop token ''client_id'' = map_option JStr (CLIENT_ID c)
         \<and> get_prop token ''target'' = Some (JStr SCOPES)
         \<and> get_prop saved ''RefreshToken''
             = Some (JObj (if truthy (refresh_token tokens)
                           then [(refresh_token_key c, refresh_token_entry c tokens)] else []))
         \<and> get_prop saved ''IdToken''
             = Some (JObj (if truthy (id_token tokens)
                           then [(id_token_key c, id_token_entry c tokens)] else []))
         \<and> get_prop saved ''AppMetadata'' = Some (JObj [])
         \<and> exit_code Succeeded = 0
         \<and> (\<forall>profile.
               pollLoop c (prov\<lparr>profileEndpoint := profile\<rparr>) dc pollInterval expiresAt w
                 = (Succeeded,
                    showUserInfo c (prov\<lparr>profileEndpoint := profile\<rparr>) (access_token tokens) w3)
             \<and> requests (showUserInfo c (prov\<lparr>profileEndpoint := profile\<rparr>)
                           (access_token tokens) w3)
                 = requests w3 @ [(clock w3, profile_request (access_token tokens))]
             \<and> (\<forall>l u. profile = Response l True (Some u) \<longrightarrow>
                   (\<exists>doc entry.
                       files (showUserInfo c (prov\<lparr>profileEndpoint := profile\<rparr>)
                                (access_token tokens) w3)
                         = (files w3)(TOKEN_CACHE_PATH c \<mapsto> File doc)
                     \<and> get_prop doc ''Account'' = Some (JObj [(account_key c, entry)])
                     \<and> get_prop entry ''username''
                         = map_option JStr (js_or (userPrincipalName u) (mail u))
                     \<and> get_prop entry ''name'' = map_option JStr (displayName u)
                     \<and> (\<forall>k. k \<noteq> ''username'' \<and> k \<noteq> ''name'' \<longrightarrow>
                           get_prop entry k = get_prop account k)
                     \<and> (\<forall>k. k \<noteq> ''Account'' \<longrightarrow> get_prop doc k = get_prop saved k)))
             \<and> ((\<forall>l u. profile \<noteq> Response l True (Some u)) \<longrightarrow>
                   files (showUserInfo c (prov\<lparr>profileEndpoint := profile\<rparr>)
                            (access_token tokens) w3) = files w3))"
proof -
  define w2 where "w2 = (fetch (tokenEndpoint prov (polls w)) (token_request c dc)
                           (sleep pollInterval w))\<lparr>polls := Suc (polls w)\<rparr>"
  define saved where "saved = token_cache c tokens (clock w2)"
  define w3 where "w3 = w2\<lparr>files := (files w)(TOKEN_CACHE_PATH c \<mapsto> File saved)\<rparr>"
  define token where
    "token = access_token_entry c tokens (clock w2 div 1000)
               (map_option (\<lambda>e. clock w2 div 1000 + e) (token_expires_in tokens))"
  have files2: "files w2 = files w"
    by (simp add: w2_def fetch_def sleep_def)
  from assms(4) have save: "saveTokenCache c tokens w2 = Inr w3"
    by (auto simp: saveTokenCache_def writeFileSync_def files2 w3_def saved_def
          split: option.splits node.splits)
  have files3: "files w3 = (files w)(TOKEN_CACHE_PATH c \<mapsto> File saved)"
    by (simp add: w3_def)
  have stored: "files w3 (TOKEN_CACHE_PATH c) = Some (File saved)"
    by (simp add: w3_def)
  have account: "get_prop saved ''Account'' = Some (JObj [(account_key c, account_entry c)])"
    and access: "get_prop saved ''AccessToken'' = Some (JObj [(access_token_key c, token)])"
    and refresh: "get_prop saved ''RefreshToken''
             = Some (JObj (if truthy (refresh_token tokens)
                           then [(refresh_token_key c, refresh_token_entry c tokens)] else []))"
    and ident: "get_prop saved ''IdToken''
             = Some (JObj (if truthy (id_token tokens)
                           then [(id_token_key c, id_token_entry c tokens)] else []))"
    and app: "get_prop saved ''AppMetadata'' = Some (JObj [])"
    by (simp_all add: saved_def token_def get_prop_token_cache)
  have token_props: "get_prop token ''secret'' = map_option JStr (access_token tokens)"
    "get_prop token ''client_id'' = map_option JStr (CLIENT_ID c)"
    "get_prop token ''target'' = Some (JStr SCOPES)"
    by (simp_all add: token_def access_token_entry_props)
  have code: "exit_code Succeeded = 0" by simp
  have each: "pollLoop c (prov\<lparr>profileEndpoint := profile\<rparr>) dc pollInterval expiresAt w
                 = (Succeeded,
                    showUserInfo c (prov\<lparr>profileEndpoint := profile\<rparr>) (access_token tokens) w3)
             \<and> requests (showUserInfo c (prov\<lparr>profileEndpoint := profile\<rparr>)
                           (access_token tokens) w3)
                 = requests w3 @ [(clock w3, profile_request (access_token tokens))]
             \<and> (\<forall>l u. profile = Response l True (Some u) \<longrightarrow>
                   (\<exists>doc entry.
                       files (showUserInfo c (prov\<lparr>profileEndpoint := profile\<rparr>)
                                (access_token tokens) w3)
                         = (files w3)(TOKEN_CACHE_PATH c \<mapsto> File doc)
                     \<and> get_prop doc ''Account'' = Some (JObj [(account_key c, entry)])
                     \<and> get_prop entry ''username''
                         = map_option JStr (js_or (userPrincipalName u) (mail u))
                     \<and> get_prop entry ''name'' = map_option JStr (displayName u)
                     \<and> (\<forall>k. k \<noteq> ''username'' \<and> k \<noteq> ''name'' \<longrightarrow>
                           get_prop entry k = get_prop (account_entry c) k)
                     \<and> (\<forall>k. k \<noteq> ''Account'' \<longrightarrow> get_prop doc k = get_prop saved k)))
             \<and> ((\<forall>l u. profile \<noteq> Response l True (Some u)) \<longrightarrow>
                   files (showUserInfo c (prov\<lparr>profileEndpoint := profile\<rparr>)
                            (access_token tokens) w3) = files w3)"
    for profile
  proof -
    let ?prov = "prov\<lparr>profileEndpoint := profile\<rparr>"
    let ?final = "showUserInfo c ?prov (access_token tokens) w3"
    from assms(2) save
    have "on_token_result c ?prov tokens w2 = Done Succeeded ?final"
      by (simp add: on_token_result_def on_success_def)
    with assms(1) have "poll_body c ?prov dc pollInterval w = Done Succeeded ?final"
      by (simp add: poll_body_def Let_def w2_def)
    with assms(3) have run: "pollLoop c ?prov dc pollInterval expiresAt w = (Succeeded, ?final)"
      by (subst pollLoop.simps) simp
    from showUserInfo_shape [of c ?prov "access_token tokens" w3]
    have reqs: "requests ?final = requests w3 @ [(clock w3, profile_request (access_token tokens))]"
      by (auto simp: fetch_def)
    have enriched: "\<exists>doc entry.
          files ?final = (files w3)(TOKEN_CACHE_PATH c \<mapsto> File doc)
        \<and> get_prop doc ''Account'' = Some (JObj [(account_key c, entry)])
        \<and> get_prop entry ''username'' = map_option JStr (js_or (userPrincipalName u) (mail u))
        \<and> get_prop entry ''name'' = map_option JStr (displayName u)
        \<and> (\<forall>k. k \<noteq> ''username'' \<and> k \<noteq> ''name'' \<longrightarrow>
              get_prop entry k = get_prop (account_entry c) k)
        \<and> (\<forall>k. k \<noteq> ''Account'' \<longrightarrow> get_prop doc k = get_prop saved k)"
      if ok: "profile = Response l True (Some u)" for l u
    proof -
      from enrich_token_cache_account [of u c tokens "clock w2"] obtain doc props where
        doc: "enrich u saved = Inr (Some doc)"
        and props: "account_entry c = JObj props"
        and acc: "get_prop doc ''Account''
                  = Some (JObj [(account_key c, JObj (update_account u props))])"
        and others: "\<forall>k. k \<noteq> ''Account'' \<longrightarrow> get_prop doc k = get_prop saved k"
        unfolding saved_def by blast
      from ok have "profileEndpoint ?prov = Response l True (Some u)" by simp
      from showUserInfo_enriches [OF this stored doc]
      have written: "files ?final = (files w3)(TOKEN_CACHE_PATH c \<mapsto> File doc)" .
      have kept: "\<forall>k. k \<noteq> ''username'' \<and> k \<noteq> ''name'' \<longrightarrow>
                    get_prop (JObj (update_account u props)) k = get_prop (account_entry c) k"
        by (simp add: props update_account_other)
      from written acc get_prop_update_account [of u props] kept others
      show ?thesis by blast
    qed
    have kept_files: "files ?final = files w3"
      if "\<forall>l u. profile \<noteq> Response l True (Some u)"
    proof -
      from that have "\<forall>l u. profileEndpoint ?prov \<noteq> Response l True (Some u)" by simp
      then show ?thesis by (rule showUserInfo_keeps_files)
    qed
    show ?thesis
    proof (intro conjI allI impI)
      show "pollLoop c ?prov dc pollInterval expiresAt w = (Succeeded, ?final)" by (rule run)
      show "requests ?final = requests w3 @ [(clock w3, profile_request (access_token tokens))]"
        by (rule reqs)
    next
      fix l u assume "profile = Response l True (Some u)"
      then show "\<exists>doc entry.
          files ?final = (files w3)(TOKEN_CACHE_PATH c \<mapsto> File doc)
        \<and> get_prop doc ''Account'' = Some (JObj [(account_key c, entry)])
        \<and> get_prop entry ''username'' = map_option JStr (js_or (userPrincipalName u) (mail u))
        \<and> get_prop entry ''name'' = map_option JStr (displayName u)
        \<and> (\<forall>k. k \<noteq> ''username'' \<and> k \<noteq> ''name'' \<longrightarrow>
              get_prop entry k = get_prop (account_entry c) k)
        \<and> (\<forall>k. k \<noteq> ''Account'' \<longrightarrow> get_prop doc k = get_prop saved k)"
        by (rule enriched)
    next
      assume "\<forall>l u. profile \<noteq> Response l True (Some u)"
      then show "files ?final = files w3" by (rule kept_files)
    qed
  qed
  show ?thesis
    apply (rule exI [of _ w2])
    apply (rule exI [of _ w3])
    apply (rule exI [of _ saved])
    apply (rule exI [of _ "account_entry c"])
    apply (rule exI [of _ token])
    apply (intro conjI allI)
    apply (rule save)
    apply (rule saved_def)
    apply (rule files3)
    apply (rule account)
    apply (rule account_entry_props(1))
    apply (rule account_entry_props(2))
    apply (rule account_entry_props(3))
    apply (rule access)
    apply (rule token_props(1))
    apply (rule token_props(2))
    apply (rule token_props(3))
    apply (rule refresh)
    apply (rule ident)
    apply (rule app)
    apply (rule code)
    apply (rule each [THEN conjunct1])
    apply (rule each [THEN conjunct2, THEN conjunct1])
    apply (rule each [THEN conjunct2, THEN conjunct2, THEN conjunct1, THEN spec, THEN spec])
    apply (rule each [THEN conjunct2, THEN conjunct2, THEN conjunct2])
    done
qed

theorem success_saves_then_enriches_best_effort_witness:
  "tokenEndpoint late_grant (polls (start\<lparr>polls := 2\<rparr>)) = Response 0 True (Some granted)
   \<and> \<not> truthy (error granted)
   \<and> js_less (clock (start\<lparr>polls := 2\<rparr>)) (Some 12000)
   \<and> (\<forall>e. files (start\<lparr>polls := 2\<rparr>) (TOKEN_CACHE_PATH no_secret) \<noteq> Some (Blocked e))
   \<and> (\<exists>w3 saved doc entry.
         files w3 = (files (start\<lparr>polls := 2\<rparr>))(TOKEN_CACHE_PATH no_secret \<mapsto> File saved)
       \<and> get_prop saved ''AppMetadata'' = Some (JObj [])
       \<and> pollLoop no_secret (late_grant\<lparr>profileEndpoint := Rejected 7\<rparr>) short_code 5000
              (Some 12000) (start\<lparr>polls := 2\<rparr>)
            = (Succeeded,
               showUserInfo no_secret (late_grant\<lparr>profileEndpoint := Rejected 7\<rparr>)
                 (access_token granted) w3)
       \<and> files (showUserInfo no_secret (late_grant\<lparr>profileEndpoint := Rejected 7\<rparr>)
                  (access_token granted) w3) = files w3
       \<and> pollLoop no_secret (late_grant\<lparr>profileEndpoint := Response 0 True (Some ada)\<rparr>)
              short_code 5000 (Some 12000) (start\<lparr>polls := 2\<rparr>)
            = (Succeeded,
               showUserInfo no_secret (late_grant\<lparr>profileEndpoint := Response 0 True (Some ada)\<rparr>)
                 (access_token granted) w3)
       \<and> files (showUserInfo no_secret
                  (late_grant\<lparr>profileEndpoint := Response 0 True (Some ada)\<rparr>)
                  (access_token granted) w3)
           = (files w3)(TOKEN_CACHE_PATH no_secret \<mapsto> File doc)
       \<and> get_prop doc ''Account'' = Some (JObj [(account_key no_secret, entry)])
       \<and> get_prop entry ''username'' = Some (JStr ''ada@example.com'')
       \<and> get_prop entry ''name'' = Some (JStr ''Ada''))"
proof -
  have h1: "tokenEndpoint late_grant (polls (start\<lparr>polls := 2\<rparr>))
            = Response 0 True (Some granted)"
    by (simp add: late_grant_def)
  have h2: "\<not> truthy (error granted)"
    by (simp add: granted_def truthy_def)
  have h3: "js_less (clock (start\<lparr>polls := 2\<rparr>)) (Some 12000)"
    by (simp add: js_less_def start_def)
  have h4: "\<forall>e. files (start\<lparr>polls := 2\<rparr>) (TOKEN_CACHE_PATH no_secret) \<noteq> Some (Blocked e)"
    by (simp add: start_def)
  have ada: "map_option JStr (js_or (userPrincipalName ada) (mail ada))
             = Some (JStr ''ada@example.com'')"
    "map_option JStr (displayName ada) = Some (JStr ''Ada'')"
    by (simp_all add: ada_def js_or_def truthy_def)
  have rejected: "\<forall>l u. (Rejected 7 :: user http_outcome) \<noteq> Response l True (Some u)"
    by simp
  from success_saves_then_enriches_best_effort [OF h1 h2 h3 h4, of short_code 5000]
  obtain w3 saved account where
    files: "files w3 = (files (start\<lparr>polls := 2\<rparr>))(TOKEN_CACHE_PATH no_secret \<mapsto> File saved)"
    and app: "get_prop saved ''AppMetadata'' = Some (JObj [])"
    and every: "(\<forall>profile.
               pollLoop no_secret (late_grant\<lparr>profileEndpoint := profile\<rparr>) short_code 5000 (Some 12000) (start\<lparr>polls := 2\<rparr>)
                 = (Succeeded,
                    showUserInfo no_secret (late_grant\<lparr>profileEndpoint := profile\<rparr>) (access_token granted) w3)
             \<and> requests (showUserInfo no_secret (late_grant\<lparr>profileEndpoint := profile\<rparr>)
                           (access_token granted) w3)
                 = requests w3 @ [(clock w3, profile_request (access_token granted))]
             \<and> (\<forall>l u. profile = Response l True (Some u) \<longrightarrow>
                   (\<exists>doc entry.
                       files (showUserInfo no_secret (late_grant\<lparr>profileEndpoint := profile\<rparr>)
                                (access_token granted) w3)
                         = (files w3)(TOKEN_CACHE_PATH no_secret \<mapsto> File doc)
                     \<and> get_prop doc ''Account'' = Some (JObj [(account_key no_secret, entry)])
                     \<and> get_prop entry ''username''
                         = map_option JStr (js_or (userPrincipalName u) (mail u))
                     \<and> get_prop entry ''name'' = map_option JStr (displayName u)
                     \<and> (\<forall>k. k \<noteq> ''username'' \<and> k \<noteq> ''name'' \<longrightarrow>
                           get_prop entry k = get_prop account k)
                     \<and> (\<forall>k. k \<noteq> ''Account'' \<longrightarrow> get_prop doc k = get_prop saved k)))
             \<and> ((\<forall>l u. profile \<noteq> Response l True (Some u)) \<longrightarrow>
                   files (showUserInfo no_secret (late_grant\<lparr>profileEndpoint := profile\<rparr>)
                            (access_token granted) w3) = files w3))"
    by (elim exE conjE) (rule that)
  note rejected_case = every [THEN spec, of "Rejected 7"]
  note ada_case = every [THEN spec, of "Response 0 True (Some ada)"]
  from rejected_case [THEN conjunct2, THEN conjunct2, THEN conjunct2] rejected
  have kept: "files (showUserInfo no_secret (late_grant\<lparr>profileEndpoint := Rejected 7\<rparr>)
                 (access_token granted) w3) = files w3"
    by (rule mp)
  from ada_case [THEN conjunct2, THEN conjunct2, THEN conjunct1, THEN spec, THEN spec,
      of 0 ada]
  obtain doc entry where
    written: "files (showUserInfo no_secret
                  (late_grant\<lparr>profileEndpoint := Response 0 True (Some ada)\<rparr>)
                  (access_token granted) w3)
           = (files w3)(TOKEN_CACHE_PATH no_secret \<mapsto> File doc)"
    and acc: "get_prop doc ''Account'' = Some (JObj [(account_key no_secret, entry)])"
    and user: "get_prop entry ''username''
                 = map_option JStr (js_or (userPrincipalName ada) (mail ada))"
    and name: "get_prop entry ''name'' = map_option JStr (displayName ada)"
    by (elim impE exE conjE) (rule refl, rule that)
  from user name ada have names: "get_prop entry ''username'' = Some (JStr ''ada@example.com'')"
    "get_prop entry ''name'' = Some (JStr ''Ada'')"
    by simp_all
  have "(\<exists>w3 saved doc entry.
         files w3 = (files (start\<lparr>polls := 2\<rparr>))(TOKEN_CACHE_PATH no_secret \<mapsto> File saved)
       \<and> get_prop saved ''AppMetadata'' = Some (JObj [])
       \<and> pollLoop no_secret (late_grant\<lparr>profileEndpoint := Rejected 7\<rparr>) short_code 5000
              (Some 12000) (start\<lparr>polls := 2\<rparr>)
            = (Succeeded,
               showUserInfo no_secret (late_grant\<lparr>profileEndpoint := Rejected 7\<rparr>)
                 (access_token granted) w3)
       \<and> files (showUserInfo no_secret (late_grant\<lparr>profileEndpoint := Rejected 7\<rparr>)
                  (access_token granted) w3) = files w3
       \<and> pollLoop no_secret (late_grant\<lparr>profileEndpoint := Response 0 True (Some ada)\<rparr>)
              short_code 5000 (Some 12000) (start\<lparr>polls := 2\<rparr>)
            = (Succeeded,
               showUserInfo no_secret (late_grant\<lparr>profileEndpoint := Response 0 True (Some ada)\<rparr>)
                 (access_token granted) w3)
       \<and> files (showUserInfo no_secret
                  (late_grant\<lparr>profileEndpoint := Response 0 True (Some ada)\<rparr>)
                  (access_token granted) w3)
           = (files w3)(TOKEN_CACHE_PATH no_secret \<mapsto> File doc)
       \<and> get_prop doc ''Account'' = Some (JObj [(account_key no_secret, entry)])
       \<and> get_prop entry ''username'' = Some (JStr ''ada@example.com'')
       \<and> get_prop entry ''name'' = Some (JStr ''Ada''))"
    apply (rule exI [of _ w3])
    apply (rule exI [of _ saved])
    apply (rule exI [of _ doc])
    apply (rule exI [of _ entry])
    apply (intro conjI)
    apply (rule files)
    apply (rule app)
    apply (rule rejected_case [THEN conjunct1])
    apply (rule kept)
    apply (rule ada_case [THEN conjunct1])
    apply (rule written)
    apply (rule acc)
    apply (rule names(1))
    apply (rule names(2))
    done
  with h1 h2 h3 h4 show ?thesis
    by (intro conjI)
qed

section \<open>Refresh-token and id-token entries\<close>

lemma entry_secrets:
  "get_prop (refresh_token_entry c tokens) ''secret'' = map_option JStr (refresh_token tokens)"
  "get_prop (id_token_entry c tokens) ''secret'' = map_option JStr (id_token tokens)"
  by (simp_all add: get_prop_def refresh_token_entry_def id_token_entry_def map_of_opt_prop
        map_add_def opt_prop_def split: option.splits)

text \<open>
  Claim C10. In the document that \<^verbatim>\<open>saveTokenCache\<close> writes, and in the file after the
  profile lookup, the \<open>RefreshToken\<close> map has exactly one entry, holding the response's
  refresh token as its secret, when the response has a (non-empty) \<^verbatim>\<open>refresh_token\<close>,
  and is empty otherwise; likewise the \<open>IdToken\<close> map and \<^verbatim>\<open>id_token\<close>. A response
  without an error field is a success whether or not it has a refresh token.
\<close>

theorem refresh_and_id_entries_follow_response:
  assumes "saveTokenCache c tokens w = Inr w1"
  shows "\<exists>saved final.
           files w1 (TOKEN_CACHE_PATH c) = Some (File saved)
         \<and> files (showUserInfo c prov (access_token tokens) w1) (TOKEN_CACHE_PATH c)
             = Some (File final)
         \<and> get_prop saved ''RefreshToken''
             = Some (JObj (if truthy (refresh_token tokens)
                           then [(refresh_token_key c, refresh_token_entry c tokens)] else []))
         \<and> get_prop saved ''IdToken''
             = Some (JObj (if truthy (id_token tokens)
                           then [(id_token_key c, id_token_entry c tokens)] else []))
         \<and> get_prop final ''RefreshToken'' = get_prop saved ''RefreshToken''
         \<and> get_prop final ''IdToken'' = get_prop saved ''IdToken''
         \<and> get_prop (refresh_token_entry c tokens) ''secret''
             = map_option JStr (refresh_token tokens)
         \<and> get_prop (id_token_entry c tokens) ''secret'' = map_option JStr (id_token tokens)
         \<and> (\<not> truthy (error tokens) \<longrightarrow>
               on_token_result c prov tokens w
                 = Done Succeeded (showUserInfo c prov (access_token tokens) w1))"
proof -
  let ?saved = "token_cache c tokens (clock w)"
  let ?final = "showUserInfo c prov (access_token tokens) w1"
  from stored_after_success [OF assms, of prov "access_token tokens"]
  have saved: "files w1 (TOKEN_CACHE_PATH c) = Some (File ?saved)"
    and final: "files ?final (TOKEN_CACHE_PATH c) = Some (File ?saved)
       \<or> (\<exists>u doc. enrich u ?saved = Inr (Some doc)
             \<and> files ?final (TOKEN_CACHE_PATH c) = Some (File doc))"
    by blast+
  from final obtain doc where doc: "files ?final (TOKEN_CACHE_PATH c) = Some (File doc)"
    "\<forall>k. k \<noteq> ''Account'' \<longrightarrow> get_prop doc k = get_prop ?saved k"
  proof
    assume "files ?final (TOKEN_CACHE_PATH c) = Some (File ?saved)"
    then show ?thesis by (intro that [of ?saved]) simp_all
  next
    assume "\<exists>u doc. enrich u ?saved = Inr (Some doc)
              \<and> files ?final (TOKEN_CACHE_PATH c) = Some (File doc)"
    then obtain u doc where ud: "enrich u ?saved = Inr (Some doc)"
      "files ?final (TOKEN_CACHE_PATH c) = Some (File doc)" by blast
    from enrich_token_cache [of u c tokens "clock w"] ud(1)
    have "\<forall>k. k \<noteq> ''Account'' \<longrightarrow> get_prop doc k = get_prop ?saved k" by auto
    with ud(2) show ?thesis by (intro that [of doc])
  qed
  from doc(2) have same: "get_prop doc ''RefreshToken'' = get_prop ?saved ''RefreshToken''"
    "get_prop doc ''IdToken'' = get_prop ?saved ''IdToken''"
    by simp_all
  have success: "\<not> truthy (error tokens) \<longrightarrow>
      on_token_result c prov tokens w = Done Succeeded ?final"
    using assms by (simp add: on_token_result_def on_success_def)
  from saved doc(1) same success get_prop_token_cache(3,4) [of c tokens "clock w"]
    entry_secrets [of c tokens]
  show ?thesis by blast
qed

theorem refresh_and_id_entries_follow_response_witness:
  "saveTokenCache no_secret (granted\<lparr>refresh_token := None\<rparr>) start
     = Inr (start\<lparr>files := Map.empty(''/app/.m365-token-cache.json''
              \<mapsto> File (token_cache no_secret (granted\<lparr>refresh_token := None\<rparr>) 0))\<rparr>)
   \<and> get_prop (token_cache no_secret (granted\<lparr>refresh_token := None\<rparr>) 0) ''RefreshToken''
      = Some (JObj [])
   \<and> get_prop (token_cache no_secret granted 0) ''RefreshToken''
      = Some (JObj [(refresh_token_key no_secret, refresh_token_entry no_secret granted)])
   \<and> on_token_result no_secret late_grant (granted\<lparr>refresh_token := None\<rparr>) start
      = Done Succeeded (showUserInfo no_secret late_grant (Some ''AT'')
          (start\<lparr>files := Map.empty(''/app/.m365-token-cache.json''
              \<mapsto> File (token_cache no_secret (granted\<lparr>refresh_token := None\<rparr>) 0))\<rparr>))"
proof -
  let ?tokens = "granted\<lparr>refresh_token := None\<rparr>"
  let ?w1 = "start\<lparr>files := Map.empty(''/app/.m365-token-cache.json''
              \<mapsto> File (token_cache no_secret ?tokens 0))\<rparr>"
  have h: "saveTokenCache no_secret ?tokens start = Inr ?w1"
    by (simp add: saveTokenCache_def writeFileSync_def start_def no_secret_def)
  have e: "\<not> truthy (error ?tokens)" "access_token ?tokens = Some ''AT''"
    by (simp_all add: granted_def truthy_def)
  from refresh_and_id_entries_follow_response [OF h, of late_grant] e
  have "on_token_result no_secret late_grant ?tokens start
      = Done Succeeded (showUserInfo no_secret late_grant (Some ''AT'') ?w1)"
    by auto
  moreover have "get_prop (token_cache no_secret ?tokens 0) ''RefreshToken'' = Some (JObj [])"
    by (simp add: get_prop_token_cache truthy_def)
  moreover have "get_prop (token_cache no_secret granted 0) ''RefreshToken''
      = Some (JObj [(refresh_token_key no_secret, refresh_token_entry no_secret granted)])"
    by (simp add: get_prop_token_cache truthy_def granted_def)
  ultimately show ?thesis using h by blast
qed


end
